theory Spec2Isabelle
  imports Main "HOL-Library.Word"
begin

section \<open>Strings and paths\<close>

text \<open>
  The document converter is \<^verbatim>\<open>src/convert-document.tsx\<close>. JavaScript strings are
  modelled as \<^typ>\<open>string\<close>. The characters that cannot be written inside a string
  literal are named here.
\<close>

definition squote :: char where
  "squote = CHR 0x27"

definition dquote :: char where
  "dquote = CHR 0x22"

definition backslash :: char where
  "backslash = CHR 0x5C"

definition backtick :: char where
  "backtick = CHR 0x60"

text \<open>
  \<^verbatim>\<open>String.prototype.toLowerCase\<close>, on the ASCII letters. No character outside
  \<^verbatim>\<open>A-Z\<close> lower-cases to one of the letters of \<^verbatim>\<open>.doc\<close> and \<^verbatim>\<open>.docx\<close>, so the
  lookups in the format table are the same as with the full Unicode mapping.
\<close>

definition toLowerChar :: "char \<Rightarrow> char" where
  "toLowerChar c =
     (case map_of (zip ''ABCDEFGHIJKLMNOPQRSTUVWXYZ'' ''abcdefghijklmnopqrstuvwxyz'') c of
        Some l \<Rightarrow> l
      | None \<Rightarrow> c)"

definition toLowerCase :: "string \<Rightarrow> string" where
  "toLowerCase s = map toLowerChar s"

text \<open>
  \<^verbatim>\<open>Array.prototype.join\<close> and \<^verbatim>\<open>String.prototype.split\<close> with a one-character
  separator. Splitting never returns the empty list: \<^verbatim>\<open>"".split("+")\<close> is \<^verbatim>\<open>[""]\<close>.
\<close>

fun joinWith :: "string \<Rightarrow> string list \<Rightarrow> string" where
  "joinWith sep [] = []"
| "joinWith sep [x] = x"
| "joinWith sep (x # y # ys) = x @ sep @ joinWith sep (y # ys)"

fun splitOn :: "char \<Rightarrow> string \<Rightarrow> string list" where
  "splitOn sep [] = [[]]"
| "splitOn sep (c # cs) =
     (if c = sep then [] # splitOn sep cs
      else (case splitOn sep cs of
              [] \<Rightarrow> [[c]]
            | w # ws \<Rightarrow> (c # w) # ws))"

text \<open>
  The functions of Node's \<^verbatim>\<open>path\<close> module that the converter calls, in their POSIX
  form (the extension runs on macOS only). All three ignore trailing separators and
  look at the last segment of what remains.

  \<^verbatim>\<open>path.extname\<close> returns the text from the last dot of the last segment to its end,
  and the empty string when the segment has no dot, when its only dot is its first
  character, or when the segment is \<^verbatim>\<open>..\<close>. The lists \<open>seg\<close> and \<open>ext\<close> below are
  reversed, as the library scans from the end of the path.
\<close>

definition isSlash :: "char \<Rightarrow> bool" where
  "isSlash c = (c = CHR ''/'')"

definition isDot :: "char \<Rightarrow> bool" where
  "isDot c = (c = CHR ''.'')"

definition extname :: "string \<Rightarrow> string" where
  "extname p =
     (let seg = takeWhile (\<lambda>c. \<not> isSlash c) (dropWhile isSlash (rev p));
          ext = takeWhile (\<lambda>c. \<not> isDot c) seg
      in if length ext = length seg then []
         else if length ext + 1 = length seg then []
         else if seg = ''..'' then []
         else CHR ''.'' # rev ext)"

definition basename :: "string \<Rightarrow> string" where
  "basename p = rev (takeWhile (\<lambda>c. \<not> isSlash c) (dropWhile isSlash (rev p)))"

definition dirname :: "string \<Rightarrow> string" where
  "dirname p =
     (let rest = dropWhile (\<lambda>c. \<not> isSlash c) (dropWhile isSlash (rev p));
          hasRoot = (case p of [] \<Rightarrow> False | c # _ \<Rightarrow> isSlash c)
      in if p = [] then ''.''
         else if length rest \<le> 1 then (if hasRoot then ''/'' else ''.'')
         else if hasRoot \<and> length rest = 2 then ''//''
         else take (length rest - 1) p)"

section \<open>Deriving the output path\<close>

text \<open>
  \<^verbatim>\<open>convertDocument\<close> derives the output path with
  \<^verbatim>\<open>inputPath.replace(/\.[^.]+$/, outputFormat)\<close>. The second argument of
  \<^verbatim>\<open>String.prototype.replace\<close> is a replacement pattern in which a dollar sign may
  start a substitution. The expression has no capture group, so the patterns with a
  digit or a group name stand for themselves; the others insert the matched text, or
  the text before or after the match.
\<close>

fun getSubstitution :: "string \<Rightarrow> string \<Rightarrow> string \<Rightarrow> string \<Rightarrow> string" where
  "getSubstitution matched preceding following [] = []"
| "getSubstitution matched preceding following [c] = [c]"
| "getSubstitution matched preceding following (c # d # r) =
     (if c = CHR ''$'' \<and> d = CHR ''$'' then CHR ''$'' # getSubstitution matched preceding following r
      else if c = CHR ''$'' \<and> d = CHR ''&'' then matched @ getSubstitution matched preceding following r
      else if c = CHR ''$'' \<and> d = backtick then preceding @ getSubstitution matched preceding following r
      else if c = CHR ''$'' \<and> d = squote then following @ getSubstitution matched preceding following r
      else c # getSubstitution matched preceding following (d # r))"

text \<open>
  The search for the regular expression: the first position, from the left, where a dot
  is followed by one or more characters that are not dots, up to the end of the string.
  \<open>preceding\<close> is the text already passed over. With no such position the string is returned
  as it is.
\<close>

fun regexReplace :: "string \<Rightarrow> string \<Rightarrow> string \<Rightarrow> string" where
  "regexReplace preceding [] replacement = preceding"
| "regexReplace preceding (c # cs) replacement =
     (if isDot c \<and> cs \<noteq> [] \<and> \<not> (\<exists>x \<in> set cs. isDot x)
      then preceding @ getSubstitution (c # cs) preceding [] replacement
      else regexReplace (preceding @ [c]) cs replacement)"

definition outputPathFor :: "string \<Rightarrow> string \<Rightarrow> string" where
  "outputPathFor inputPath outputFormat = regexReplace [] inputPath outputFormat"

text \<open>
  The final segment of a path is the text after its last separator. Two paths are
  siblings when \<^verbatim>\<open>path.dirname\<close> gives the same directory for both and
  \<^verbatim>\<open>path.basename\<close> different names. A path keeps the parent of another when it is a
  different path with the same text up to the last separator; this is the narrower
  notion, as \<^verbatim>\<open>.pdf\<close> and \<^verbatim>\<open>./notes\<close> are siblings but differ before the separator.
\<close>

definition finalSegment :: "string \<Rightarrow> string" where
  "finalSegment p = rev (takeWhile (\<lambda>c. \<not> isSlash c) (rev p))"

definition parentPrefix :: "string \<Rightarrow> string" where
  "parentPrefix p = rev (dropWhile (\<lambda>c. \<not> isSlash c) (rev p))"

definition sibling :: "string \<Rightarrow> string \<Rightarrow> bool" where
  "sibling q p = (dirname q = dirname p \<and> basename q \<noteq> basename p)"

definition keepsParent :: "string \<Rightarrow> string \<Rightarrow> bool" where
  "keepsParent q p = (q \<noteq> p \<and> parentPrefix q = parentPrefix p)"

text \<open>
  The stem of a path is the path without its trailing separators and without its
  extension, so that a path with an extension is its stem, then its extension, then
  its trailing separators.
\<close>

definition stem :: "string \<Rightarrow> string" where
  "stem p =
     (let trimmed = rev (dropWhile isSlash (rev p))
      in take (length trimmed - length (extname p)) trimmed)"

text \<open>
  A single extension: a dot and then one or more characters, none of which is a dot, a
  path separator, the separator of composite specifiers or a dollar sign.
\<close>

definition singleExtension :: "string \<Rightarrow> bool" where
  "singleExtension f =
     (case f of
        [] \<Rightarrow> False
      | c # g \<Rightarrow> isDot c \<and> g \<noteq> [] \<and>
          (\<forall>x\<in>set g. \<not> isDot x \<and> \<not> isSlash x \<and> x \<noteq> CHR ''+'' \<and> x \<noteq> CHR ''$''))"

section \<open>The format catalog\<close>

text \<open>
  \<^verbatim>\<open>SUPPORTED_FORMATS\<close> is an object literal with two keys; the order of each array is
  the order of the dropdown, and its first element is the preselected format.
  \<^verbatim>\<open>getExtension\<close> returns either the empty string or a string that starts with a
  dot, so a lookup never reaches a property inherited from \<^verbatim>\<open>Object.prototype\<close>.
\<close>

definition SUPPORTED_FORMATS :: "string \<rightharpoonup> string list" where
  "SUPPORTED_FORMATS =
     map_of [(''.doc'', [''.pdf'', ''.docx'', ''.pdf+.docx'']),
             (''.docx'', [''.pdf'', ''.doc'', ''.pdf+.doc''])]"

definition FORMAT_LABELS :: "string \<rightharpoonup> string" where
  "FORMAT_LABELS =
     map_of [(''.pdf'', ''PDF''),
             (''.doc'', ''Word Document (.doc)''),
             (''.docx'', ''Word Document (.docx)''),
             (''.pdf+.docx'', ''Both (PDF + DOCX)''),
             (''.pdf+.doc'', ''Both (PDF + DOC)'')]"

definition getExtension :: "string \<Rightarrow> string" where
  "getExtension filePath = toLowerCase (extname filePath)"

definition isSupportedFile :: "string \<Rightarrow> bool" where
  "isSupportedFile filePath = (SUPPORTED_FORMATS (getExtension filePath) \<noteq> None)"

definition getOutputFormats :: "string \<Rightarrow> string list" where
  "getOutputFormats filePath =
     (case SUPPORTED_FORMATS (getExtension filePath) of
        Some formats \<Rightarrow> formats
      | None \<Rightarrow> [])"

text \<open>
  A specifier is composite when it contains the separator, which is how
  \<^verbatim>\<open>handleConvert\<close> tells the two kinds apart; its elements are what
  \<^verbatim>\<open>split("+")\<close> returns.
\<close>

definition isComposite :: "string \<Rightarrow> bool" where
  "isComposite specifier = (CHR ''+'' \<in> set specifier)"

definition elements :: "string \<Rightarrow> string list" where
  "elements specifier = splitOn (CHR ''+'') specifier"

section \<open>The host: files, the converter and the desktop\<close>

text \<open>
  Everything outside the program is a parameter: what LibreOffice returns for a buffer
  and a format, which writes, shell commands and reveals fail, and what Finder has
  selected. The state that the program changes is the file system, the toast on
  screen and the list of calls made so far, in order. A call is recorded when it is
  made, whether or not it succeeds.
\<close>

type_synonym buffer = "8 word list"

datatype exn = JsError string | Thrown

datatype toast_style = Animated | Success | Failure

datatype action = RevealInFinder "string list" | CopyInstallCommand | OpenHomebrew

record toast =
  style :: toast_style
  title :: string
  message :: string
  primaryAction :: "action option"
  secondaryAction :: "action option"

datatype call =
    ReadFile string
  | Convert buffer string
  | WriteFile string buffer
  | ExecSync string
  | GetSelectedFinderItems
  | OpenPath string
  | ShowToast toast
  | ShowHUD string
  | PopToRoot

record host =
  libreConvert :: "buffer \<Rightarrow> string \<Rightarrow> exn + buffer"
  writeFails :: "string \<Rightarrow> exn option"
  execFails :: "string \<Rightarrow> exn option"
  openFails :: "string \<Rightarrow> exn option"
  finderItems :: "exn + string list"

record world =
  files :: "string \<rightharpoonup> buffer"
  calls :: "call list"
  shown :: "toast option"

type_synonym 'a io = "world \<Rightarrow> (exn + 'a) \<times> world"

definition returnIO :: "'a \<Rightarrow> 'a io" where
  "returnIO x = (\<lambda>w. (Inr x, w))"

definition throwIO :: "exn \<Rightarrow> 'a io" where
  "throwIO e = (\<lambda>w. (Inl e, w))"

definition bindIO :: "'a io \<Rightarrow> ('a \<Rightarrow> 'b io) \<Rightarrow> 'b io" where
  "bindIO m f = (\<lambda>w. case m w of (Inl e, w') \<Rightarrow> (Inl e, w') | (Inr x, w') \<Rightarrow> f x w')"

definition tryCatch :: "'a io \<Rightarrow> (exn \<Rightarrow> 'a io) \<Rightarrow> 'a io" where
  "tryCatch m handler = (\<lambda>w. case m w of (Inl e, w') \<Rightarrow> handler e w' | (Inr x, w') \<Rightarrow> (Inr x, w'))"

definition made :: "call \<Rightarrow> world \<Rightarrow> world" where
  "made c w = w\<lparr>calls := calls w @ [c]\<rparr>"

definition readFileSync :: "string \<Rightarrow> buffer io" where
  "readFileSync p =
     (\<lambda>w. case files w p of
             None \<Rightarrow> (Inl (JsError (''ENOENT: no such file or directory, open '' @ [squote] @ p @ [squote])),
                      made (ReadFile p) w)
           | Some b \<Rightarrow> (Inr b, made (ReadFile p) w))"

definition writeFileSync :: "host \<Rightarrow> string \<Rightarrow> buffer \<Rightarrow> unit io" where
  "writeFileSync H p b =
     (\<lambda>w. case writeFails H p of
             Some e \<Rightarrow> (Inl e, made (WriteFile p b) w)
           | None \<Rightarrow> (Inr (), (made (WriteFile p b) w)\<lparr>files := (files w)(p \<mapsto> b)\<rparr>))"

definition convertAsync :: "host \<Rightarrow> buffer \<Rightarrow> string \<Rightarrow> buffer io" where
  "convertAsync H b format = (\<lambda>w. (libreConvert H b format, made (Convert b format) w))"

definition execSync :: "host \<Rightarrow> string \<Rightarrow> unit io" where
  "execSync H command =
     (\<lambda>w. case execFails H command of
             Some e \<Rightarrow> (Inl e, made (ExecSync command) w)
           | None \<Rightarrow> (Inr (), made (ExecSync command) w))"

definition openPath :: "host \<Rightarrow> string \<Rightarrow> unit io" where
  "openPath H p =
     (\<lambda>w. case openFails H p of
             Some e \<Rightarrow> (Inl e, made (OpenPath p) w)
           | None \<Rightarrow> (Inr (), made (OpenPath p) w))"

definition getSelectedFinderItems :: "host \<Rightarrow> string list io" where
  "getSelectedFinderItems H = (\<lambda>w. (finderItems H, made GetSelectedFinderItems w))"

definition showToast :: "toast \<Rightarrow> unit io" where
  "showToast t = (\<lambda>w. (Inr (), (made (ShowToast t) w)\<lparr>shown := Some t\<rparr>))"

definition updateToast :: "(toast \<Rightarrow> toast) \<Rightarrow> unit io" where
  "updateToast f = (\<lambda>w. (Inr (), w\<lparr>shown := map_option f (shown w)\<rparr>))"

definition showHUD :: "string \<Rightarrow> unit io" where
  "showHUD text = (\<lambda>w. (Inr (), made (ShowHUD text) w))"

definition popToRoot :: "unit io" where
  "popToRoot = (\<lambda>w. (Inr (), made PopToRoot w))"

section \<open>The converter\<close>

text \<open>\<^verbatim>\<open>isLibreOfficeInstalled\<close>: one shell command inside \<^verbatim>\<open>try\<close>/\<^verbatim>\<open>catch\<close>.\<close>

definition probeCommand :: string where
  "probeCommand = ''which soffice || ls /Applications/LibreOffice.app 2>/dev/null''"

definition isLibreOfficeInstalled :: "host \<Rightarrow> bool io" where
  "isLibreOfficeInstalled H =
     tryCatch (bindIO (execSync H probeCommand) (\<lambda>_. returnIO True)) (\<lambda>_. returnIO False)"

text \<open>\<^verbatim>\<open>convertDocument\<close>: read, convert, derive the output path, write.\<close>

definition convertDocument :: "host \<Rightarrow> string \<Rightarrow> string \<Rightarrow> string io" where
  "convertDocument H inputPath outputFormat =
     bindIO (readFileSync inputPath) (\<lambda>inputBuffer.
     bindIO (convertAsync H inputBuffer outputFormat) (\<lambda>outputBuffer.
     let outputPath = outputPathFor inputPath outputFormat in
     bindIO (writeFileSync H outputPath outputBuffer) (\<lambda>_.
     returnIO outputPath)))"

text \<open>
  \<^verbatim>\<open>convertDocumentMultiple\<close>: the \<^verbatim>\<open>for\<close> loop over the formats, with the array
  \<^verbatim>\<open>outputPaths\<close> that it pushes to. An exception of \<^verbatim>\<open>convertDocument\<close> leaves the
  loop and the function; the array is local and is lost with it.
\<close>

fun convertLoop :: "host \<Rightarrow> string \<Rightarrow> string list \<Rightarrow> string list \<Rightarrow> string list io" where
  "convertLoop H inputPath [] outputPaths = returnIO outputPaths"
| "convertLoop H inputPath (format # formats) outputPaths =
     bindIO (convertDocument H inputPath format) (\<lambda>outputPath.
     convertLoop H inputPath formats (outputPaths @ [outputPath]))"

definition convertDocumentMultiple :: "host \<Rightarrow> string \<Rightarrow> string list \<Rightarrow> string list io" where
  "convertDocumentMultiple H inputPath formats = convertLoop H inputPath formats []"

text \<open>
  \<^verbatim>\<open>copyFilesToClipboard\<close>: the AppleScript and the shell command are built with
  template literals, the paths as they are.
\<close>

definition posixFile :: "string \<Rightarrow> string" where
  "posixFile p = ''POSIX file '' @ [dquote] @ p @ [dquote]"

definition clipboardScript :: "string list \<Rightarrow> string" where
  "clipboardScript filePaths =
     ''set the clipboard to {'' @ joinWith '', '' (map posixFile filePaths) @ ''}''"

definition clipboardCommand :: "string list \<Rightarrow> string" where
  "clipboardCommand filePaths = ''osascript -e '' @ [squote] @ clipboardScript filePaths @ [squote]"

definition copyFilesToClipboard :: "host \<Rightarrow> string list \<Rightarrow> unit io" where
  "copyFilesToClipboard H filePaths = execSync H (clipboardCommand filePaths)"

section \<open>How the shell and AppleScript read the clipboard command\<close>

text \<open>
  The command line is read twice. The shell reads the argument of \<^verbatim>\<open>-e\<close> as a
  single-quoted word: every character up to the next single quote, with no escape
  inside. AppleScript then reads the script, in which a string literal runs from a
  double quote to the next double quote that is not escaped by a backslash; inside it a
  backslash and the character after it stand for one character.
\<close>

fun shSingleQuoted :: "string \<Rightarrow> (string \<times> string) option" where
  "shSingleQuoted [] = None"
| "shSingleQuoted (c # cs) =
     (if c = squote \<and> squote \<in> set cs
      then Some (takeWhile (\<lambda>x. x \<noteq> squote) cs, tl (dropWhile (\<lambda>x. x \<noteq> squote) cs))
      else None)"

definition shellArgument :: "string \<Rightarrow> (string \<times> string) option" where
  "shellArgument command = shSingleQuoted (drop (length ''osascript -e '') command)"

definition unescape :: "char \<Rightarrow> char option" where
  "unescape d =
     (if d = dquote then Some dquote
      else if d = backslash then Some backslash
      else if d = CHR ''n'' then Some (CHR 0x0A)
      else if d = CHR ''r'' then Some (CHR 0x0D)
      else if d = CHR ''t'' then Some (CHR 0x09)
      else None)"

text \<open>
  The string literals of a script, in order. The first argument is \<open>None\<close> outside a
  literal and holds the text read so far inside one. A literal that is not closed, or
  an unknown escape, is an error.
\<close>

fun asStrings :: "string option \<Rightarrow> string \<Rightarrow> string list option" where
  "asStrings None [] = Some []"
| "asStrings (Some lit) [] = None"
| "asStrings None (c # cs) =
     (if c = dquote then asStrings (Some []) cs else asStrings None cs)"
| "asStrings (Some lit) (c # cs) =
     (if c = dquote then map_option ((#) lit) (asStrings None cs)
      else if c = backslash then
        (case cs of
           [] \<Rightarrow> None
         | d # ds \<Rightarrow>
             (case unescape d of
                None \<Rightarrow> None
              | Some u \<Rightarrow> asStrings (Some (lit @ [u])) ds))
      else asStrings (Some (lit @ [c])) cs)"

text \<open>
  The paths are correctly delimited in the command when the shell hands the whole
  script, and nothing else, to \<^verbatim>\<open>osascript\<close>, and the string literals of the script are
  the paths.
\<close>

definition wellDelimited :: "string list \<Rightarrow> bool" where
  "wellDelimited filePaths =
     (shellArgument (clipboardCommand filePaths) = Some (clipboardScript filePaths, []) \<and>
      asStrings None (clipboardScript filePaths) = Some filePaths)"

text \<open>
  For reasoning about the literals: the number of backslashes in a text, the number
  held by the literal being read, and whether that literal is free of double quotes.
\<close>

definition backslashes :: "string \<Rightarrow> nat" where
  "backslashes s = length (filter (\<lambda>c. c = backslash) s)"

definition held :: "string option \<Rightarrow> nat" where
  "held st = (case st of None \<Rightarrow> 0 | Some lit \<Rightarrow> backslashes lit)"

definition clean :: "string option \<Rightarrow> bool" where
  "clean st = (case st of None \<Rightarrow> True | Some lit \<Rightarrow> dquote \<notin> set lit)"

section \<open>The command\<close>

record ui_state =
  isLoading :: bool
  selectedFile :: "string option"
  useFilePicker :: bool
  outputFormat :: string
  isConverting :: bool

text \<open>
  \<^verbatim>\<open>handleFileChange\<close>, the file picker's callback. A file that is not supported
  leaves the selection as it was.
\<close>

definition selectWithDefault :: "string \<Rightarrow> ui_state \<Rightarrow> ui_state" where
  "selectWithDefault filePath st =
     (let st1 = st\<lparr>selectedFile := Some filePath\<rparr>
      in case getOutputFormats filePath of
           [] \<Rightarrow> st1
         | format # _ \<Rightarrow> st1\<lparr>outputFormat := format\<rparr>)"

definition handleFileChange :: "string list \<Rightarrow> ui_state \<Rightarrow> ui_state" where
  "handleFileChange chosen st =
     (case chosen of
        [] \<Rightarrow> st\<lparr>selectedFile := None, outputFormat := []\<rparr>
      | filePath # _ \<Rightarrow> if isSupportedFile filePath then selectWithDefault filePath st else st)"

text \<open>
  \<^verbatim>\<open>initialize\<close>, run once when the command opens: the probe, then the Finder
  selection, of which the first supported file is taken.
\<close>

definition libreOfficeRequired :: toast where
  "libreOfficeRequired =
     \<lparr>style = Failure, title = ''LibreOffice Required'',
      message = ''Install with: brew install --cask libreoffice'',
      primaryAction = Some CopyInstallCommand, secondaryAction = Some OpenHomebrew\<rparr>"

definition fromFinder :: "host \<Rightarrow> ui_state \<Rightarrow> ui_state io" where
  "fromFinder H st =
     tryCatch
       (bindIO (getSelectedFinderItems H) (\<lambda>items.
          case filter isSupportedFile items of
            [] \<Rightarrow> returnIO (st\<lparr>useFilePicker := True\<rparr>)
          | filePath # _ \<Rightarrow> returnIO (selectWithDefault filePath st)))
       (\<lambda>_. returnIO (st\<lparr>useFilePicker := True\<rparr>))"

definition initialize :: "host \<Rightarrow> ui_state \<Rightarrow> ui_state io" where
  "initialize H st =
     bindIO (isLibreOfficeInstalled H) (\<lambda>installed.
     if \<not> installed
     then bindIO (showToast libreOfficeRequired) (\<lambda>_. bindIO popToRoot (\<lambda>_. returnIO st))
     else bindIO (fromFinder H st) (\<lambda>st1. returnIO (st1\<lparr>isLoading := False\<rparr>)))"

text \<open>
  \<^verbatim>\<open>handleConvert\<close>. The body of its \<^verbatim>\<open>try\<close> block is in two parts here: \<open>convert\<close>
  is the conversion proper, which yields \<^verbatim>\<open>outputPaths\<close>, and \<open>publish\<close> is all that
  follows it. Both run under the one \<^verbatim>\<open>catch\<close>, which rewrites the toast;
  \<^verbatim>\<open>error instanceof Error ? error.message : "Unknown error"\<close> is \<open>errorMessage\<close>.
\<close>

definition convert :: "host \<Rightarrow> string \<Rightarrow> string \<Rightarrow> string list io" where
  "convert H selected format =
     (if isComposite format
      then convertDocumentMultiple H selected (elements format)
      else bindIO (convertDocument H selected format) (\<lambda>outputPath. returnIO [outputPath]))"

definition revealFirst :: "host \<Rightarrow> string list \<Rightarrow> unit io" where
  "revealFirst H outputPaths =
     (case outputPaths of
        [] \<Rightarrow> throwIO (JsError (''The '' @ [dquote] @ ''path'' @ [dquote] @
                 '' argument must be of type string. Received undefined''))
      | first # _ \<Rightarrow> openPath H (dirname first))"

text \<open>
  The text of the HUD starts with the three characters that the source file holds
  before \<^verbatim>\<open>Converted\<close> (U+00E2, U+0153 and U+201C), seven bytes in UTF-8.
\<close>

definition checkMark :: string where
  "checkMark = [CHR 0xC3, CHR 0xA2, CHR 0xC5, CHR 0x93, CHR 0xE2, CHR 0x80, CHR 0x9C]"

definition hudText :: "string \<Rightarrow> string" where
  "hudText fileNames = checkMark @ '' Converted: '' @ fileNames @ '' (copied)''"

text \<open>The assignments to the toast in the \<^verbatim>\<open>try\<close> block and in the \<^verbatim>\<open>catch\<close> block.\<close>

definition markComplete :: "string list \<Rightarrow> toast \<Rightarrow> toast" where
  "markComplete outputPaths t =
     t\<lparr>style := Success, title := ''Conversion Complete'',
       message := joinWith '', '' (map basename outputPaths) @ '' (copied to clipboard)'',
       primaryAction := Some (RevealInFinder outputPaths)\<rparr>"

definition errorMessage :: "exn \<Rightarrow> string" where
  "errorMessage e = (case e of JsError m \<Rightarrow> m | Thrown \<Rightarrow> ''Unknown error'')"

definition markFailed :: "exn \<Rightarrow> toast \<Rightarrow> toast" where
  "markFailed e t = t\<lparr>style := Failure, title := ''Conversion Failed'', message := errorMessage e\<rparr>"

definition publish :: "host \<Rightarrow> string list \<Rightarrow> unit io" where
  "publish H outputPaths =
     bindIO (copyFilesToClipboard H outputPaths) (\<lambda>_.
     let fileNames = joinWith '', '' (map basename outputPaths) in
     bindIO (updateToast (markComplete outputPaths)) (\<lambda>_.
     bindIO (showHUD (hudText fileNames)) (\<lambda>_.
     bindIO (revealFirst H outputPaths) (\<lambda>_.
     popToRoot))))"

definition conversionFailed :: "exn \<Rightarrow> unit io" where
  "conversionFailed e = updateToast (markFailed e)"

definition missingSelection :: toast where
  "missingSelection =
     \<lparr>style = Failure, title = ''Missing Selection'',
      message = ''Please select a file and output format'',
      primaryAction = None, secondaryAction = None\<rparr>"

definition converting :: "string \<Rightarrow> toast" where
  "converting selected =
     \<lparr>style = Animated, title = ''Converting...'', message = basename selected,
      primaryAction = None, secondaryAction = None\<rparr>"

definition missing :: "ui_state \<Rightarrow> bool" where
  "missing st = (selectedFile st = None \<or> selectedFile st = Some [] \<or> outputFormat st = [])"

definition handleConvert :: "host \<Rightarrow> ui_state \<Rightarrow> world \<Rightarrow> ui_state \<times> world" where
  "handleConvert H st w =
     (case selectedFile st of
        None \<Rightarrow> (st, snd (showToast missingSelection w))
      | Some selected \<Rightarrow>
          if selected = [] \<or> outputFormat st = [] then (st, snd (showToast missingSelection w))
          else
            let w1 = snd (showToast (converting selected) w);
                w2 = snd (tryCatch (bindIO (convert H selected (outputFormat st)) (publish H))
                                   conversionFailed w1)
            in (st\<lparr>isConverting := False\<rparr>, w2))"

section \<open>Observing a run\<close>

text \<open>
  The formats of the converter calls in a list of calls, in the order of the calls, and
  the calls that a run added to those made before it.
\<close>

fun convertedFormats :: "call list \<Rightarrow> string list" where
  "convertedFormats [] = []"
| "convertedFormats (Convert b format # cs) = format # convertedFormats cs"
| "convertedFormats (c # cs) = convertedFormats cs"

definition callsSince :: "world \<Rightarrow> world \<Rightarrow> call list" where
  "callsSince w w' = drop (length (calls w)) (calls w')"

section \<open>An example host\<close>

text \<open>
  A host on which everything works, and a desk with one Word document and one text
  file, for running the definitions on concrete inputs.
\<close>

definition pdfBytes :: buffer where
  "pdfBytes = [0x25, 0x50, 0x44, 0x46]"

definition docBytes :: buffer where
  "docBytes = [0xD0, 0xCF, 0x11, 0xE0]"

definition docxBytes :: buffer where
  "docxBytes = [0x50, 0x4B, 0x03, 0x04]"

definition office :: host where
  "office =
     \<lparr>libreConvert = (\<lambda>b format.
        if format = ''.pdf'' then Inr pdfBytes
        else if format = ''.doc'' then Inr docBytes
        else if format = ''.docx'' then Inr docxBytes
        else Inl (JsError ''no export filter'')),
      writeFails = (\<lambda>_. None),
      execFails = (\<lambda>_. None),
      openFails = (\<lambda>_. None),
      finderItems = Inr []\<rparr>"

definition desk :: world where
  "desk =
     \<lparr>files = [''/docs/report.docx'' \<mapsto> docxBytes, ''/docs/memo.docx'' \<mapsto> docxBytes,
               ''/docs/notes.txt'' \<mapsto> [0x68, 0x69]],
      calls = [],
      shown = None\<rparr>"

text \<open>
  Hosts on which one thing fails: LibreOffice has no filter for Word formats, the
  clipboard script is refused, or the file manager cannot be opened.
\<close>

definition noWordFilter :: host where
  "noWordFilter =
     office\<lparr>libreConvert := (\<lambda>b format.
        if format = ''.pdf'' then Inr pdfBytes else Inl (JsError ''no export filter''))\<rparr>"

definition noClipboard :: host where
  "noClipboard = office\<lparr>execFails := (\<lambda>_. Some (JsError ''osascript: not allowed''))\<rparr>"

definition noReveal :: host where
  "noReveal = office\<lparr>openFails := (\<lambda>_. Some Thrown)\<rparr>"

text \<open>A desk with a Word document that has no extension.\<close>

definition drawer :: world where
  "drawer = \<lparr>files = [''/docs/README'' \<mapsto> docBytes], calls = [], shown = None\<rparr>"

text \<open>The form with a file and a format chosen.\<close>

definition chosen :: "string \<Rightarrow> string \<Rightarrow> ui_state" where
  "chosen filePath format =
     \<lparr>isLoading = False, selectedFile = Some filePath, useFilePicker = False,
      outputFormat = format, isConverting = False\<rparr>"

section \<open>Properties of the catalog\<close>

lemma getOutputFormats_cases:
  "getOutputFormats p = [''.pdf'', ''.docx'', ''.pdf+.docx''] \<and> getExtension p = ''.doc'' \<or>
   getOutputFormats p = [''.pdf'', ''.doc'', ''.pdf+.doc''] \<and> getExtension p = ''.docx'' \<or>
   getOutputFormats p = [] \<and> \<not> isSupportedFile p"
  by (simp add: getOutputFormats_def isSupportedFile_def SUPPORTED_FORMATS_def)

lemma isSupportedFile_iff:
  "isSupportedFile p \<longleftrightarrow> getExtension p = ''.doc'' \<or> getExtension p = ''.docx''"
  by (simp add: isSupportedFile_def SUPPORTED_FORMATS_def)

lemma elements_pdf_docx: "elements ''.pdf+.docx'' = [''.pdf'', ''.docx'']"
  by (simp add: elements_def)

lemma elements_pdf_doc: "elements ''.pdf+.doc'' = [''.pdf'', ''.doc'']"
  by (simp add: elements_def)

text \<open>
  Claim C6. For a path with a supported extension the legal outputs are a non-empty
  sequence whose first element is always the simple specifier \<^verbatim>\<open>.pdf\<close>; for any other
  path the sequence is empty; and each element of a composite specifier in the sequence
  is itself in the sequence.
\<close>

theorem legal_outputs_catalog:
  "(isSupportedFile p \<longrightarrow>
      getOutputFormats p \<noteq> [] \<and> hd (getOutputFormats p) = ''.pdf'' \<and>
      \<not> isComposite (hd (getOutputFormats p))) \<and>
   (\<not> isSupportedFile p \<longrightarrow> getOutputFormats p = []) \<and>
   (\<forall>s \<in> set (getOutputFormats p).
      isComposite s \<longrightarrow> set (elements s) \<subseteq> set (getOutputFormats p))"
  using getOutputFormats_cases [of p]
  by (auto simp: isComposite_def elements_pdf_docx elements_pdf_doc isSupportedFile_iff)

theorem legal_outputs_catalog_witness:
  "isSupportedFile ''/docs/Report.DOCX'' \<and>
   getOutputFormats ''/docs/Report.DOCX'' = [''.pdf'', ''.doc'', ''.pdf+.doc''] \<and>
   hd (getOutputFormats ''/docs/Report.DOCX'') = ''.pdf'' \<and>
   isComposite ''.pdf+.doc'' \<and>
   set (elements ''.pdf+.doc'') \<subseteq> set (getOutputFormats ''/docs/Report.DOCX'') \<and>
   \<not> isSupportedFile ''/docs/notes.txt'' \<and>
   getOutputFormats ''/docs/notes.txt'' = []"
proof -
  have ext: "getExtension ''/docs/Report.DOCX'' = ''.docx''"
    by (simp add: getExtension_def extname_def toLowerCase_def toLowerChar_def
        isSlash_def isDot_def)
  have ext2: "getExtension ''/docs/notes.txt'' = ''.txt''"
    by (simp add: getExtension_def extname_def toLowerCase_def toLowerChar_def
        isSlash_def isDot_def)
  have sup: "isSupportedFile ''/docs/Report.DOCX''"
    by (simp add: isSupportedFile_iff ext)
  have unsup: "\<not> isSupportedFile ''/docs/notes.txt''"
    by (simp add: isSupportedFile_iff ext2)
  have fmts: "getOutputFormats ''/docs/Report.DOCX'' = [''.pdf'', ''.doc'', ''.pdf+.doc'']"
    by (simp add: getOutputFormats_def ext SUPPORTED_FORMATS_def)
  have comp: "isComposite ''.pdf+.doc''"
    by (simp add: isComposite_def)
  from legal_outputs_catalog [of "''/docs/Report.DOCX''"] sup fmts comp
  have a: "hd (getOutputFormats ''/docs/Report.DOCX'') = ''.pdf''"
    and b: "set (elements ''.pdf+.doc'') \<subseteq> set (getOutputFormats ''/docs/Report.DOCX'')"
    by auto
  from legal_outputs_catalog [of "''/docs/notes.txt''"] unsup
  have c: "getOutputFormats ''/docs/notes.txt'' = []"
    by blast
  from sup fmts a comp b unsup c show ?thesis
    by blast
qed

section \<open>The derived output path\<close>

lemma getSubstitution_plain:
  "CHR ''$'' \<notin> set r \<Longrightarrow> getSubstitution m b a r = r"
  by (induction m b a r rule: getSubstitution.induct) auto

lemma regexReplace_no_dot:
  "\<not> (\<exists>x \<in> set s. isDot x) \<Longrightarrow> regexReplace b s r = b @ s"
  by (induction s arbitrary: b) auto

lemma regexReplace_last_dot:
  "\<not> (\<exists>x \<in> set t. isDot x) \<Longrightarrow> t \<noteq> [] \<Longrightarrow> isDot d \<Longrightarrow>
   regexReplace b (s @ d # t) r = b @ s @ getSubstitution (d # t) (b @ s) [] r"
  by (induction s arbitrary: b) auto

lemma regexReplace_trailing_dot:
  "isDot d \<Longrightarrow> regexReplace b (s @ [d]) r = b @ s @ [d]"
  by (induction s arbitrary: b) auto

lemma finalSegment_append_no_slash:
  "\<not> (\<exists>x \<in> set t. isSlash x) \<Longrightarrow> finalSegment (s @ t) = finalSegment s @ t"
proof -
  assume "\<not> (\<exists>x \<in> set t. isSlash x)"
  then have "takeWhile (\<lambda>c. \<not> isSlash c) (rev t @ rev s) = rev t @ takeWhile (\<lambda>c. \<not> isSlash c) (rev s)"
    by (intro takeWhile_append2) simp
  then show ?thesis by (simp add: finalSegment_def)
qed

lemma last_dot_split:
  assumes "CHR ''.'' \<in> set p"
  shows "\<exists>s t. p = s @ CHR ''.'' # t \<and> CHR ''.'' \<notin> set t"
  using split_list_last [OF assms] by blast

lemma dot_in_directory:
  assumes seg: "CHR ''.'' \<notin> set (finalSegment (s @ CHR ''.'' # t))"
  shows "CHR ''/'' \<in> set t"
proof (rule ccontr)
  assume "CHR ''/'' \<notin> set t"
  then have "\<not> (\<exists>x \<in> set (CHR ''.'' # t). isSlash x)"
    by (auto simp: isSlash_def)
  then have "finalSegment (s @ CHR ''.'' # t) = finalSegment s @ CHR ''.'' # t"
    by (rule finalSegment_append_no_slash)
  with seg show False by simp
qed

lemma parentPrefix_append_no_slash:
  "\<not> (\<exists>x \<in> set t. isSlash x) \<Longrightarrow> parentPrefix (s @ t) = parentPrefix s"
proof -
  assume "\<not> (\<exists>x \<in> set t. isSlash x)"
  then have "dropWhile (\<lambda>c. \<not> isSlash c) (rev t @ rev s) = dropWhile (\<lambda>c. \<not> isSlash c) (rev s)"
    by (intro dropWhile_append2) simp
  then show ?thesis by (simp add: parentPrefix_def)
qed

lemma parentPrefix_length: "length (parentPrefix p) \<le> length p"
  using length_dropWhile_le [of "\<lambda>c. \<not> isSlash c" "rev p"] by (simp add: parentPrefix_def)

lemma parentPrefix_keeps:
  assumes "CHR ''/'' \<in> set t"
  shows "length s < length (parentPrefix (s @ t))"
proof -
  from split_list_last [OF assms] obtain u v where t: "t = u @ CHR ''/'' # v" and v: "CHR ''/'' \<notin> set v"
    by blast
  have "\<not> (\<exists>x \<in> set v. isSlash x)" using v by (auto simp: isSlash_def)
  then have "parentPrefix ((s @ u @ ''/'') @ v) = parentPrefix (s @ u @ ''/'')"
    by (rule parentPrefix_append_no_slash)
  moreover have "parentPrefix (s @ u @ ''/'') = s @ u @ ''/''"
    by (simp add: parentPrefix_def isSlash_def)
  ultimately show ?thesis by (simp add: t)
qed

section \<open>Running the converter\<close>

lemma calls_made: "calls (made c w) = calls w @ [c]"
  by (simp add: made_def)

lemma files_made: "files (made c w) = files w"
  by (simp add: made_def)

lemma shown_made: "shown (made c w) = shown w"
  by (simp add: made_def)

text \<open>
  Claim C7. The probe never throws: whatever the shell command does, the result is a
  boolean, \<open>True\<close> when the command succeeded and \<open>False\<close> when it raised an error of
  any kind. Its only call is that one shell command.
\<close>

theorem isLibreOfficeInstalled_total:
  "isLibreOfficeInstalled H w = (Inr (execFails H probeCommand = None), made (ExecSync probeCommand) w)"
  by (simp add: isLibreOfficeInstalled_def tryCatch_def bindIO_def execSync_def returnIO_def
      split: option.splits)

lemma convertDocument_run:
  "convertDocument H p f w =
     (case files w p of
        None \<Rightarrow> (Inl (JsError (''ENOENT: no such file or directory, open '' @ [squote] @ p @ [squote])),
                 made (ReadFile p) w)
      | Some b \<Rightarrow>
          (case libreConvert H b f of
             Inl e \<Rightarrow> (Inl e, made (Convert b f) (made (ReadFile p) w))
           | Inr ob \<Rightarrow>
               (case writeFails H (outputPathFor p f) of
                  Some e \<Rightarrow> (Inl e, made (WriteFile (outputPathFor p f) ob) (made (Convert b f) (made (ReadFile p) w)))
                | None \<Rightarrow> (Inr (outputPathFor p f),
                     (made (WriteFile (outputPathFor p f) ob) (made (Convert b f) (made (ReadFile p) w)))
                       \<lparr>files := (files w)(outputPathFor p f \<mapsto> ob)\<rparr>))))"
  by (simp add: convertDocument_def bindIO_def readFileSync_def convertAsync_def writeFileSync_def
      returnIO_def files_made Let_def split: option.splits sum.splits)

lemma convertedFormats_append:
  "convertedFormats (xs @ ys) = convertedFormats xs @ convertedFormats ys"
  by (induction xs rule: convertedFormats.induct) auto

lemma convertLoop_Cons:
  "convertLoop H p (f # fs) acc w =
     (case convertDocument H p f w of
        (Inl e, w') \<Rightarrow> (Inl e, w')
      | (Inr out, w') \<Rightarrow> convertLoop H p fs (acc @ [out]) w')"
  by (simp add: bindIO_def)

lemma convertDocument_calls:
  assumes "convertDocument H p f w = (r, w')"
  shows "\<exists>rest. calls w' = calls w @ ReadFile p # rest \<and>
           (convertedFormats rest = [] \<or> convertedFormats rest = [f]) \<and>
           (\<forall>out. r = Inr out \<longrightarrow> out = outputPathFor p f \<and> convertedFormats rest = [f])"
  using assms unfolding convertDocument_run
  by (auto simp: calls_made split: option.splits sum.splits)

lemma convertLoop_calls:
  "convertLoop H p fs acc w = (r, w') \<Longrightarrow>
   \<exists>rest. calls w' = calls w @ rest \<and>
     (\<exists>n\<le>length fs. convertedFormats rest = take n fs) \<and>
     (\<forall>ps. r = Inr ps \<longrightarrow> ps = acc @ map (outputPathFor p) fs \<and> convertedFormats rest = fs)"
proof (induction fs arbitrary: acc w r w')
  case Nil
  then show ?case by (auto simp: returnIO_def)
next
  case (Cons f fs)
  obtain r1 w1 where step: "convertDocument H p f w = (r1, w1)"
    by (cases "convertDocument H p f w")
  from convertDocument_calls [OF step] obtain rest1
    where c1: "calls w1 = calls w @ ReadFile p # rest1"
      and f1: "convertedFormats rest1 = [] \<or> convertedFormats rest1 = [f]"
      and ok1: "\<forall>out. r1 = Inr out \<longrightarrow> out = outputPathFor p f \<and> convertedFormats rest1 = [f]"
    by blast
  show ?case
  proof (cases r1)
    case (Inl e)
    with Cons.prems step have "r = Inl e" "w' = w1"
      by (simp_all add: convertLoop_Cons del: convertLoop.simps)
    moreover have "\<exists>n\<le>length (f # fs). convertedFormats (ReadFile p # rest1) = take n (f # fs)"
    proof (cases "convertedFormats rest1 = []")
      case True
      then have "convertedFormats (ReadFile p # rest1) = take 0 (f # fs)" by simp
      then show ?thesis by blast
    next
      case False
      with f1 have "convertedFormats (ReadFile p # rest1) = take 1 (f # fs)" by simp
      then show ?thesis by (metis One_nat_def Suc_leI length_Cons zero_less_Suc)
    qed
    ultimately show ?thesis using c1 by auto
  next
    case (Inr out)
    with ok1 have out: "out = outputPathFor p f" and fs1: "convertedFormats rest1 = [f]"
      by auto
    from Cons.prems step Inr have rec: "convertLoop H p fs (acc @ [out]) w1 = (r, w')"
      by (simp add: convertLoop_Cons del: convertLoop.simps)
    from Cons.IH [OF rec] obtain rest2 n
      where c2: "calls w' = calls w1 @ rest2"
        and n: "n \<le> length fs" "convertedFormats rest2 = take n fs"
        and ok2: "\<forall>ps. r = Inr ps \<longrightarrow> ps = (acc @ [out]) @ map (outputPathFor p) fs \<and> convertedFormats rest2 = fs"
      by blast
    have "calls w' = calls w @ (ReadFile p # rest1 @ rest2)"
      using c1 c2 by simp
    moreover have "convertedFormats (ReadFile p # rest1 @ rest2) = take (Suc n) (f # fs)"
      using fs1 n by (simp add: convertedFormats_append)
    moreover have "\<forall>ps. r = Inr ps \<longrightarrow> ps = acc @ map (outputPathFor p) (f # fs) \<and>
        convertedFormats (ReadFile p # rest1 @ rest2) = f # fs"
      using ok2 fs1 out by (simp add: convertedFormats_append)
    ultimately show ?thesis using n(1)
      by (metis Suc_le_mono length_Cons)
  qed
qed

lemma callsSince_append: "calls w' = calls w @ rest \<Longrightarrow> callsSince w w' = rest"
  by (simp add: callsSince_def)

text \<open>
  Claim C5. For a composite specifier the converter is called once per element, in the
  order of the specifier: the formats of the calls made are always an initial part of
  the elements, and when the conversion succeeds they are all the elements and the
  result is the output path of each element, in the same order.
\<close>

theorem composite_in_order:
  assumes "isComposite spec" and "convert H p spec w = (r, w')"
  shows "(\<exists>n\<le>length (elements spec). convertedFormats (callsSince w w') = take n (elements spec)) \<and>
         (\<forall>ps. r = Inr ps \<longrightarrow>
            ps = map (outputPathFor p) (elements spec) \<and>
            convertedFormats (callsSince w w') = elements spec)"
proof -
  from assms have "convertLoop H p (elements spec) [] w = (r, w')"
    by (simp add: convert_def convertDocumentMultiple_def)
  from convertLoop_calls [OF this] obtain rest
    where "calls w' = calls w @ rest"
      and "\<exists>n\<le>length (elements spec). convertedFormats rest = take n (elements spec)"
      and "\<forall>ps. r = Inr ps \<longrightarrow> ps = [] @ map (outputPathFor p) (elements spec) \<and> convertedFormats rest = elements spec"
    by blast
  then show ?thesis by (simp add: callsSince_append)
qed

theorem composite_in_order_witness:
  "isComposite ''.pdf+.doc'' \<and>
   fst (convert office ''/docs/report.docx'' ''.pdf+.doc'' desk) =
     Inr [''/docs/report.pdf'', ''/docs/report.doc''] \<and>
   convertedFormats (callsSince desk (snd (convert office ''/docs/report.docx'' ''.pdf+.doc'' desk))) =
     [''.pdf'', ''.doc'']"
proof -
  have comp: "isComposite ''.pdf+.doc''"
    by (simp add: isComposite_def)
  have res: "fst (convert office ''/docs/report.docx'' ''.pdf+.doc'' desk) =
      Inr [''/docs/report.pdf'', ''/docs/report.doc'']"
    by (simp add: convert_def isComposite_def elements_def convertDocumentMultiple_def
        convertLoop_Cons convertDocument_run office_def desk_def outputPathFor_def isDot_def
        made_def returnIO_def del: convertLoop.simps(2))
  then have run: "convert office ''/docs/report.docx'' ''.pdf+.doc'' desk =
      (Inr [''/docs/report.pdf'', ''/docs/report.doc''],
       snd (convert office ''/docs/report.docx'' ''.pdf+.doc'' desk))"
    by (metis prod.collapse)
  from composite_in_order [OF comp run]
  have "convertedFormats (callsSince desk (snd (convert office ''/docs/report.docx'' ''.pdf+.doc'' desk))) =
      elements ''.pdf+.doc''"
    by blast
  with comp res show ?thesis
    by (simp add: elements_pdf_doc)
qed

section \<open>Paths without an extension\<close>

lemma convertDocument_writes:
  assumes "files w p = Some b" "libreConvert H b fmt = Inr ob"
    "writeFails H (outputPathFor p fmt) = None"
  shows "convertDocument H p fmt w =
     (Inr (outputPathFor p fmt),
      (made (WriteFile (outputPathFor p fmt) ob) (made (Convert b fmt) (made (ReadFile p) w)))
        \<lparr>files := (files w)(outputPathFor p fmt \<mapsto> ob)\<rparr>)"
  using assms by (simp add: convertDocument_run)

lemma output_unchanged: "CHR ''.'' \<notin> set p \<Longrightarrow> outputPathFor p fmt = p"
  by (simp add: outputPathFor_def regexReplace_no_dot isDot_def)

lemma output_at_last_dot:
  assumes "CHR ''.'' \<notin> set rest" "rest \<noteq> []"
  shows "outputPathFor (dir @ CHR ''.'' # rest) fmt = dir @ getSubstitution (CHR ''.'' # rest) dir [] fmt"
proof -
  have nodot: "\<not> (\<exists>x \<in> set rest. isDot x)" using assms(1) by (auto simp: isDot_def)
  show ?thesis
    unfolding outputPathFor_def
    using regexReplace_last_dot [OF nodot assms(2), of "CHR ''.''" "[]" dir fmt]
    by (simp add: isDot_def)
qed

lemma output_trailing_dot: "outputPathFor (s @ ''.'') fmt = s @ ''.''"
  using regexReplace_trailing_dot [of "CHR ''.''" "[]" s fmt]
  by (simp add: outputPathFor_def isDot_def)

lemma keepsParent_extension:
  assumes f: "CHR ''$'' \<notin> set fmt" "CHR ''/'' \<notin> set fmt"
    and k: "keepsParent (outputPathFor p fmt) p"
  shows "\<exists>stem ext. finalSegment p = stem @ CHR ''.'' # ext \<and> ext \<noteq> [] \<and> CHR ''.'' \<notin> set ext"
proof (cases "CHR ''.'' \<in> set p")
  case False
  with k show ?thesis by (simp add: keepsParent_def output_unchanged)
next
  case True
  from last_dot_split [OF True] obtain s t
    where p: "p = s @ CHR ''.'' # t" and t: "CHR ''.'' \<notin> set t"
    by blast
  show ?thesis
  proof (cases "t = []")
    case True
    with k p show ?thesis by (simp add: keepsParent_def output_trailing_dot)
  next
    case ne: False
    have out: "outputPathFor p fmt = s @ fmt"
      unfolding p using output_at_last_dot [OF t ne, of s fmt] f(1) by (simp add: getSubstitution_plain)
    have noslash: "CHR ''/'' \<notin> set t"
    proof
      assume slash: "CHR ''/'' \<in> set t"
      have "\<not> (\<exists>x \<in> set fmt. isSlash x)" using f(2) by (auto simp: isSlash_def)
      then have "parentPrefix (s @ fmt) = parentPrefix s"
        by (rule parentPrefix_append_no_slash)
      then have "length (parentPrefix (outputPathFor p fmt)) \<le> length s"
        using parentPrefix_length [of s] out by simp
      moreover have "length s < length (parentPrefix p)"
        unfolding p using parentPrefix_keeps [of "CHR ''.'' # t" s] slash by simp
      ultimately show False using k by (simp add: keepsParent_def)
    qed
    then have "\<not> (\<exists>x \<in> set (CHR ''.'' # t). isSlash x)"
      by (auto simp: isSlash_def)
    then have "finalSegment (s @ CHR ''.'' # t) = finalSegment s @ CHR ''.'' # t"
      by (rule finalSegment_append_no_slash)
    with p t ne show ?thesis by blast
  qed
qed

lemma dot_free_segment:
  assumes seg: "CHR ''.'' \<notin> set (finalSegment p)" and dot: "CHR ''.'' \<in> set p"
  shows "\<exists>dir rest. p = dir @ CHR ''.'' # rest \<and> CHR ''.'' \<notin> set rest \<and> CHR ''/'' \<in> set rest \<and>
               outputPathFor p fmt = dir @ getSubstitution (CHR ''.'' # rest) dir [] fmt \<and>
               (CHR ''$'' \<notin> set fmt \<longrightarrow> outputPathFor p fmt = dir @ fmt)"
proof -
  from last_dot_split [OF dot] obtain dir rest
    where p: "p = dir @ CHR ''.'' # rest" and rest: "CHR ''.'' \<notin> set rest"
    by blast
  from seg p have slash: "CHR ''/'' \<in> set rest"
    using dot_in_directory by blast
  then have ne: "rest \<noteq> []" by auto
  have out: "outputPathFor p fmt = dir @ getSubstitution (CHR ''.'' # rest) dir [] fmt"
    unfolding p by (rule output_at_last_dot [OF rest ne])
  have "CHR ''$'' \<notin> set fmt \<longrightarrow> outputPathFor p fmt = dir @ fmt"
    by (simp add: out getSubstitution_plain)
  with p rest slash out show ?thesis by blast
qed

text \<open>
  Claim C9, as amended. When the final segment of the input path has no dot, there are
  two cases. If the path has no dot at all, the derived output path is the input path,
  and a successful \<^verbatim>\<open>convertDocument\<close> writes the converted buffer over the input file
  itself. Otherwise the replacement starts at the last dot, which lies in the directory
  part, and takes the separator and the final segment with it. In every case
  \<^verbatim>\<open>convertDocument\<close> reads the input, converts it and writes the result to the derived
  path. For a target extension (no separator and no dollar pattern in it) and any input
  path, an output path that differs from the input and has the same text up to the last
  separator is produced only when the final segment contains a dot followed, up to its
  end, by one or more characters that are not dots.
\<close>

theorem no_extension_output_path:
  "(CHR ''.'' \<notin> set (finalSegment p) \<longrightarrow>
      (CHR ''.'' \<notin> set p \<longrightarrow>
         outputPathFor p fmt = p \<and>
         (\<forall>b ob. files w p = Some b \<and> libreConvert H b fmt = Inr ob \<and> writeFails H p = None \<longrightarrow>
            fst (convertDocument H p fmt w) = Inr p \<and>
            files (snd (convertDocument H p fmt w)) p = Some ob)) \<and>
      (CHR ''.'' \<in> set p \<longrightarrow>
         (\<exists>dir rest. p = dir @ CHR ''.'' # rest \<and> CHR ''.'' \<notin> set rest \<and> CHR ''/'' \<in> set rest \<and>
            outputPathFor p fmt = dir @ getSubstitution (CHR ''.'' # rest) dir [] fmt \<and>
            (CHR ''$'' \<notin> set fmt \<longrightarrow> outputPathFor p fmt = dir @ fmt)))) \<and>
   (\<forall>b ob. files w p = Some b \<and> libreConvert H b fmt = Inr ob \<and>
           writeFails H (outputPathFor p fmt) = None \<longrightarrow>
      convertDocument H p fmt w =
        (Inr (outputPathFor p fmt),
         (made (WriteFile (outputPathFor p fmt) ob) (made (Convert b fmt) (made (ReadFile p) w)))
           \<lparr>files := (files w)(outputPathFor p fmt \<mapsto> ob)\<rparr>)) \<and>
   (CHR ''$'' \<notin> set fmt \<and> CHR ''/'' \<notin> set fmt \<and> keepsParent (outputPathFor p fmt) p \<longrightarrow>
      (\<exists>stem ext. finalSegment p = stem @ CHR ''.'' # ext \<and> ext \<noteq> [] \<and> CHR ''.'' \<notin> set ext))"
proof (intro conjI impI allI)
  assume "CHR ''.'' \<notin> set p"
  then show "outputPathFor p fmt = p" by (rule output_unchanged)
next
  fix b ob
  assume nd: "CHR ''.'' \<notin> set p"
    and a: "files w p = Some b \<and> libreConvert H b fmt = Inr ob \<and> writeFails H p = None"
  have out: "outputPathFor p fmt = p" using nd by (rule output_unchanged)
  from a have "convertDocument H p fmt w =
     (Inr (outputPathFor p fmt),
      (made (WriteFile (outputPathFor p fmt) ob) (made (Convert b fmt) (made (ReadFile p) w)))
        \<lparr>files := (files w)(outputPathFor p fmt \<mapsto> ob)\<rparr>)"
    by (intro convertDocument_writes) (simp_all add: out)
  then show "fst (convertDocument H p fmt w) = Inr p"
    and "files (snd (convertDocument H p fmt w)) p = Some ob"
    by (simp_all add: out)
next
  assume "CHR ''.'' \<notin> set (finalSegment p)" "CHR ''.'' \<in> set p"
  then show "\<exists>dir rest. p = dir @ CHR ''.'' # rest \<and> CHR ''.'' \<notin> set rest \<and> CHR ''/'' \<in> set rest \<and>
            outputPathFor p fmt = dir @ getSubstitution (CHR ''.'' # rest) dir [] fmt \<and>
            (CHR ''$'' \<notin> set fmt \<longrightarrow> outputPathFor p fmt = dir @ fmt)"
    by (rule dot_free_segment)
next
  fix b ob
  assume "files w p = Some b \<and> libreConvert H b fmt = Inr ob \<and>
           writeFails H (outputPathFor p fmt) = None"
  then show "convertDocument H p fmt w =
        (Inr (outputPathFor p fmt),
         (made (WriteFile (outputPathFor p fmt) ob) (made (Convert b fmt) (made (ReadFile p) w)))
           \<lparr>files := (files w)(outputPathFor p fmt \<mapsto> ob)\<rparr>)"
    by (intro convertDocument_writes) simp_all
next
  assume "CHR ''$'' \<notin> set fmt \<and> CHR ''/'' \<notin> set fmt \<and> keepsParent (outputPathFor p fmt) p"
  then show "\<exists>stem ext. finalSegment p = stem @ CHR ''.'' # ext \<and> ext \<noteq> [] \<and> CHR ''.'' \<notin> set ext"
    using keepsParent_extension by blast
qed

text \<open>
  Against claim C9 as stated, with siblings and extensions as \<^verbatim>\<open>path.dirname\<close>,
  \<^verbatim>\<open>path.basename\<close> and \<^verbatim>\<open>path.extname\<close> give them: the relative path \<^verbatim>\<open>./notes\<close> has no
  dot in its final segment and yet its output \<^verbatim>\<open>.pdf\<close> is a different entry of the same
  directory; and \<^verbatim>\<open>/docs/.hidden\<close> has no extension and yet its output \<^verbatim>\<open>/docs/.pdf\<close>
  is a sibling.
\<close>

theorem sibling_without_extension:
  "CHR ''.'' \<notin> set (finalSegment ''./notes'') \<and>
   outputPathFor ''./notes'' ''.pdf'' = ''.pdf'' \<and>
   dirname ''.pdf'' = ''.'' \<and> dirname ''./notes'' = ''.'' \<and>
   basename ''.pdf'' = ''.pdf'' \<and> basename ''./notes'' = ''notes'' \<and>
   sibling (outputPathFor ''./notes'' ''.pdf'') ''./notes'' \<and>
   extname ''/docs/.hidden'' = [] \<and>
   outputPathFor ''/docs/.hidden'' ''.pdf'' = ''/docs/.pdf'' \<and>
   sibling (outputPathFor ''/docs/.hidden'' ''.pdf'') ''/docs/.hidden''"
  by (simp add: finalSegment_def outputPathFor_def sibling_def dirname_def basename_def extname_def
      isSlash_def isDot_def)

theorem no_extension_output_path_witness:
  "CHR ''.'' \<notin> set (finalSegment ''/docs/README'') \<and>
   CHR ''.'' \<notin> set ''/docs/README'' \<and>
   outputPathFor ''/docs/README'' ''.pdf'' = ''/docs/README'' \<and>
   files drawer ''/docs/README'' = Some docBytes \<and>
   fst (convertDocument office ''/docs/README'' ''.pdf'' drawer) = Inr ''/docs/README'' \<and>
   files (snd (convertDocument office ''/docs/README'' ''.pdf'' drawer)) ''/docs/README'' = Some pdfBytes \<and>
   callsSince drawer (snd (convertDocument office ''/docs/README'' ''.pdf'' drawer)) =
     [ReadFile ''/docs/README'', Convert docBytes ''.pdf'', WriteFile ''/docs/README'' pdfBytes] \<and>
   CHR ''.'' \<notin> set (finalSegment ''/home/notes.v2/README'') \<and>
   CHR ''.'' \<in> set ''/home/notes.v2/README'' \<and>
   outputPathFor ''/home/notes.v2/README'' ''.pdf'' = ''/home/notes.pdf'' \<and>
   (\<exists>dir rest. ''/home/notes.v2/README'' = dir @ CHR ''.'' # rest \<and> CHR ''.'' \<notin> set rest \<and>
      CHR ''/'' \<in> set rest \<and> outputPathFor ''/home/notes.v2/README'' ''.pdf'' = dir @ ''.pdf'') \<and>
   keepsParent (outputPathFor ''/docs/report.docx'' ''.pdf'') ''/docs/report.docx'' \<and>
   (\<exists>stem ext. finalSegment ''/docs/report.docx'' = stem @ CHR ''.'' # ext \<and> ext \<noteq> [] \<and>
      CHR ''.'' \<notin> set ext)"
proof -
  have a: "CHR ''.'' \<notin> set (finalSegment ''/docs/README'')" "CHR ''.'' \<notin> set ''/docs/README''"
    by (simp_all add: finalSegment_def isSlash_def)
  have rd: "files drawer ''/docs/README'' = Some docBytes"
    by (simp add: drawer_def)
  have cv: "libreConvert office docBytes ''.pdf'' = Inr pdfBytes" "writeFails office q = None" for q
    by (simp_all add: office_def)
  note t1 = no_extension_output_path [where p = "''/docs/README''" and fmt = "''.pdf''"
      and H = office and w = drawer]
  from t1 a have o1: "outputPathFor ''/docs/README'' ''.pdf'' = ''/docs/README''"
    by blast
  from t1 a rd cv
  have r1: "fst (convertDocument office ''/docs/README'' ''.pdf'' drawer) = Inr ''/docs/README''"
    and r2: "files (snd (convertDocument office ''/docs/README'' ''.pdf'' drawer)) ''/docs/README'' = Some pdfBytes"
    by blast+
  from t1 rd cv
  have "convertDocument office ''/docs/README'' ''.pdf'' drawer =
        (Inr (outputPathFor ''/docs/README'' ''.pdf''),
         (made (WriteFile (outputPathFor ''/docs/README'' ''.pdf'') pdfBytes)
            (made (Convert docBytes ''.pdf'') (made (ReadFile ''/docs/README'') drawer)))
           \<lparr>files := (files drawer)(outputPathFor ''/docs/README'' ''.pdf'' \<mapsto> pdfBytes)\<rparr>)"
    by blast
  then have r3: "callsSince drawer (snd (convertDocument office ''/docs/README'' ''.pdf'' drawer)) =
     [ReadFile ''/docs/README'', Convert docBytes ''.pdf'', WriteFile ''/docs/README'' pdfBytes]"
    by (simp add: o1 callsSince_def made_def)
  have b: "CHR ''.'' \<notin> set (finalSegment ''/home/notes.v2/README'')" "CHR ''.'' \<in> set ''/home/notes.v2/README''"
    by (simp_all add: finalSegment_def isSlash_def)
  have d: "CHR ''$'' \<notin> set ''.pdf''" "CHR ''/'' \<notin> set ''.pdf''" by simp_all
  note t2 = no_extension_output_path [where p = "''/home/notes.v2/README''" and fmt = "''.pdf''"
      and H = office and w = drawer]
  from t2 b d
  have r4: "\<exists>dir rest. ''/home/notes.v2/README'' = dir @ CHR ''.'' # rest \<and> CHR ''.'' \<notin> set rest \<and>
      CHR ''/'' \<in> set rest \<and> outputPathFor ''/home/notes.v2/README'' ''.pdf'' = dir @ ''.pdf''"
    by blast
  have o2: "outputPathFor ''/home/notes.v2/README'' ''.pdf'' = ''/home/notes.pdf''"
    by (simp add: outputPathFor_def isDot_def)
  have k: "keepsParent (outputPathFor ''/docs/report.docx'' ''.pdf'') ''/docs/report.docx''"
    by (simp add: keepsParent_def outputPathFor_def parentPrefix_def isDot_def isSlash_def)
  note t3 = no_extension_output_path [where p = "''/docs/report.docx''" and fmt = "''.pdf''"
      and H = office and w = drawer]
  from t3 d k
  have r5: "\<exists>stem ext. finalSegment ''/docs/report.docx'' = stem @ CHR ''.'' # ext \<and> ext \<noteq> [] \<and>
      CHR ''.'' \<notin> set ext"
    by blast
  from a o1 rd r1 r2 r3 b o2 r4 k r5 show ?thesis
    by (intro conjI)
qed

section \<open>Extensions and stems\<close>

lemma slash_not_dot: "isSlash c \<Longrightarrow> \<not> isDot c"
  by (simp add: isSlash_def isDot_def)

lemma extname_structure:
  assumes "extname p \<noteq> []"
  shows "\<exists>s e sl. p = s @ CHR ''.'' # e @ sl \<and> extname p = CHR ''.'' # e \<and>
           (\<forall>c\<in>set e. \<not> isDot c \<and> \<not> isSlash c) \<and> (\<forall>c\<in>set sl. isSlash c) \<and>
           s \<noteq> [] \<and> \<not> isSlash (last s) \<and> stem p = s"
proof -
  define sl' where "sl' = takeWhile isSlash (rev p)"
  define q where "q = dropWhile isSlash (rev p)"
  define seg where "seg = takeWhile (\<lambda>c. \<not> isSlash c) q"
  define r where "r = dropWhile (\<lambda>c. \<not> isSlash c) q"
  define ext where "ext = takeWhile (\<lambda>c. \<not> isDot c) seg"
  define d where "d = dropWhile (\<lambda>c. \<not> isDot c) seg"
  have revp: "rev p = sl' @ q" by (simp add: sl'_def q_def)
  have qs: "q = seg @ r" by (simp add: seg_def r_def)
  have segs: "seg = ext @ d" by (simp add: ext_def d_def)
  have en: "extname p = (if length ext = length seg then []
         else if length ext + 1 = length seg then []
         else if seg = ''..'' then []
         else CHR ''.'' # rev ext)"
    by (simp add: extname_def Let_def seg_def q_def ext_def)
  from assms en have l1: "length ext \<noteq> length seg" and l2: "length ext + 1 \<noteq> length seg"
    and ex: "extname p = CHR ''.'' # rev ext"
    by (auto split: if_splits)
  from l1 segs have dne: "d \<noteq> []" by auto
  then have "\<not> \<not> isDot (hd d)"
    unfolding d_def by (rule hd_dropWhile)
  then have "isDot (hd d)" by simp
  with dne obtain d' where d: "d = CHR ''.'' # d'"
    by (cases d) (auto simp: isDot_def)
  from l2 segs d have d'ne: "d' \<noteq> []" by auto
  have seg_ns: "\<forall>c\<in>set seg. \<not> isSlash c"
    unfolding seg_def using set_takeWhileD by fastforce
  have ext_nd: "\<forall>c\<in>set ext. \<not> isDot c"
    unfolding ext_def using set_takeWhileD by fastforce
  have sl_s: "\<forall>c\<in>set sl'. isSlash c"
    unfolding sl'_def using set_takeWhileD by fastforce
  have p: "p = (rev r @ rev d') @ CHR ''.'' # rev ext @ rev sl'"
  proof -
    have "rev (rev p) = rev (sl' @ ext @ CHR ''.'' # d' @ r)"
      using revp qs segs d by simp
    then show ?thesis by simp
  qed
  have e_ok: "\<forall>c\<in>set (rev ext). \<not> isDot c \<and> \<not> isSlash c"
    using ext_nd seg_ns segs by auto
  have last_ok: "\<not> isSlash (last (rev r @ rev d'))"
  proof -
    have "last (rev r @ rev d') = hd d'" using d'ne by (simp add: last_rev)
    moreover have "hd d' \<in> set seg" using d'ne segs d by simp
    ultimately show ?thesis using seg_ns by simp
  qed
  have st: "stem p = rev r @ rev d'"
  proof -
    have "rev (dropWhile isSlash (rev p)) = (rev r @ rev d') @ CHR ''.'' # rev ext"
      using qs segs d by (simp add: q_def [symmetric])
    then show ?thesis by (simp add: stem_def ex)
  qed
  from p ex e_ok sl_s d'ne last_ok st show ?thesis
    by (intro exI [of _ "rev r @ rev d'"] exI [of _ "rev ext"] exI [of _ "rev sl'"]) simp
qed

lemma extname_append_ext:
  assumes s: "s \<noteq> []" "\<not> isSlash (last s)"
    and g: "g \<noteq> []" "\<forall>c\<in>set g. \<not> isDot c \<and> \<not> isSlash c"
  shows "extname (s @ CHR ''.'' # g) = CHR ''.'' # g \<and> stem (s @ CHR ''.'' # g) = s"
proof -
  have hdg: "\<not> isSlash (hd (rev g))" using g by (simp add: hd_rev)
  have rg: "rev g \<noteq> []" using g by simp
  have dw: "dropWhile isSlash (rev (s @ CHR ''.'' # g)) = rev g @ CHR ''.'' # rev s"
    using rg hdg by (cases "rev g") auto
  have hs: "\<not> isSlash (hd (rev s))" "rev s \<noteq> []" using s by (simp_all add: hd_rev)
  then obtain a t where rs: "rev s = a # t" and a: "\<not> isSlash a"
    by (cases "rev s") auto
  have seg: "takeWhile (\<lambda>c. \<not> isSlash c) (rev g @ CHR ''.'' # rev s)
      = rev g @ CHR ''.'' # a # takeWhile (\<lambda>c. \<not> isSlash c) t"
  proof -
    have "takeWhile (\<lambda>c. \<not> isSlash c) (rev g @ CHR ''.'' # rev s)
        = rev g @ takeWhile (\<lambda>c. \<not> isSlash c) (CHR ''.'' # rev s)"
      using g by (intro takeWhile_append2) simp
    then show ?thesis using a rs by (simp add: isSlash_def)
  qed
  have ext: "takeWhile (\<lambda>c. \<not> isDot c) (rev g @ CHR ''.'' # a # takeWhile (\<lambda>c. \<not> isSlash c) t) = rev g"
  proof -
    have "takeWhile (\<lambda>c. \<not> isDot c) (rev g @ CHR ''.'' # a # takeWhile (\<lambda>c. \<not> isSlash c) t)
        = rev g @ takeWhile (\<lambda>c. \<not> isDot c) (CHR ''.'' # a # takeWhile (\<lambda>c. \<not> isSlash c) t)"
      using g by (intro takeWhile_append2) simp
    then show ?thesis by (simp add: isDot_def)
  qed
  have len: "rev g @ CHR ''.'' # a # takeWhile (\<lambda>c. \<not> isSlash c) t \<noteq> ''..''"
    using rg by (cases "rev g") auto
  have e: "extname (s @ CHR ''.'' # g) = CHR ''.'' # g"
    unfolding extname_def dw seg Let_def ext using len by simp
  have "stem (s @ CHR ''.'' # g) = s"
    unfolding stem_def Let_def dw e by simp
  with e show ?thesis by simp
qed

lemma outputPathFor_extension:
  assumes "p = s @ CHR ''.'' # e @ sl" "e \<noteq> []" "\<forall>c\<in>set e. \<not> isDot c" "\<forall>c\<in>set sl. isSlash c"
  shows "outputPathFor p f = s @ getSubstitution (CHR ''.'' # e @ sl) s [] f"
proof -
  have "\<not> (\<exists>x\<in>set (e @ sl). isDot x)" using assms slash_not_dot by auto
  moreover have "e @ sl \<noteq> []" using assms by simp
  ultimately show ?thesis
    unfolding outputPathFor_def assms(1)
    using regexReplace_last_dot [of "e @ sl" "CHR ''.''" "[]" s f]
    by (simp add: isDot_def)
qed

lemma supported_structure:
  assumes "isSupportedFile p"
  shows "\<exists>s e sl. p = s @ CHR ''.'' # e @ sl \<and> extname p = CHR ''.'' # e \<and> e \<noteq> [] \<and>
           (\<forall>c\<in>set e. \<not> isDot c \<and> \<not> isSlash c) \<and> (\<forall>c\<in>set sl. isSlash c) \<and>
           s \<noteq> [] \<and> \<not> isSlash (last s) \<and> stem p = s"
proof -
  from assms have le: "getExtension p = ''.doc'' \<or> getExtension p = ''.docx''"
    by (simp add: isSupportedFile_iff)
  then have "extname p \<noteq> []"
    by (auto simp: getExtension_def toLowerCase_def)
  from extname_structure [OF this] obtain s e sl
    where *: "p = s @ CHR ''.'' # e @ sl" "extname p = CHR ''.'' # e"
      "\<forall>c\<in>set e. \<not> isDot c \<and> \<not> isSlash c" "\<forall>c\<in>set sl. isSlash c"
      "s \<noteq> []" "\<not> isSlash (last s)" "stem p = s"
    by blast
  from le *(2) have "e \<noteq> []"
    by (auto simp: getExtension_def toLowerCase_def)
  with * show ?thesis by blast
qed


lemma singleExtension_formats:
  "f = ''.pdf'' \<or> f = ''.doc'' \<or> f = ''.docx'' \<Longrightarrow> singleExtension f"
  by (auto simp: singleExtension_def isDot_def isSlash_def)

lemma singleExtension_simple: "singleExtension f \<Longrightarrow> \<not> isComposite f"
  by (cases f) (auto simp: singleExtension_def isComposite_def isDot_def)

lemma simple_output_path:
  assumes sup: "isSupportedFile p" and f: "singleExtension f"
  shows "outputPathFor p f = stem p @ f \<and> extname (outputPathFor p f) = f \<and>
         stem (outputPathFor p f) = stem p"
proof -
  from supported_structure [OF sup] obtain s e sl
    where *: "p = s @ CHR ''.'' # e @ sl" "e \<noteq> []"
      "\<forall>c\<in>set e. \<not> isDot c \<and> \<not> isSlash c" "\<forall>c\<in>set sl. isSlash c"
      "s \<noteq> []" "\<not> isSlash (last s)" "stem p = s"
    by blast
  from f obtain g where g: "f = CHR ''.'' # g" "g \<noteq> []" "\<forall>c\<in>set g. \<not> isDot c \<and> \<not> isSlash c"
    "CHR ''$'' \<notin> set f"
    by (cases f) (auto simp: singleExtension_def isDot_def)
  have out: "outputPathFor p f = s @ f"
    using outputPathFor_extension [OF *(1,2), of f] *(3,4) g(4)
    by (simp add: getSubstitution_plain)
  from extname_append_ext [OF *(5,6) g(2,3)] out g(1) *(7) show ?thesis
    by simp
qed

section \<open>Simple conversions and repeated runs\<close>

lemma convert_simple:
  "\<not> isComposite f \<Longrightarrow> convert H p f w =
     (case convertDocument H p f w of (Inl e, w') \<Rightarrow> (Inl e, w') | (Inr out, w') \<Rightarrow> (Inr [out], w'))"
  by (simp add: convert_def bindIO_def returnIO_def)

lemma convert_as_loop:
  "convert H p spec = convertLoop H p (if isComposite spec then elements spec else [spec]) []"
  by (rule ext) (simp add: convert_def convertDocumentMultiple_def convertLoop_Cons bindIO_def returnIO_def
      del: convertLoop.simps(2) split: prod.splits sum.splits)

text \<open>
  Claim C4. For a supported input path and a simple specifier, that is a single
  extension such as the simple entries of the catalog, the output path is the stem of
  the input followed by the target extension, so its extension is the target and its
  stem is the input's stem. A conversion that succeeds
  returns exactly that one path, and it succeeds whenever the input can be read, the
  converter returns a buffer and the write is accepted: the buffer is then written to
  the path without a look at what the path held before.
\<close>

theorem simple_conversion_output:
  assumes sup: "isSupportedFile p" and single: "singleExtension f"
  shows "outputPathFor p f = stem p @ f \<and> extname (outputPathFor p f) = f \<and>
         stem (outputPathFor p f) = stem p \<and>
         (\<forall>ps. fst (convert H p f w) = Inr ps \<longrightarrow> ps = [outputPathFor p f]) \<and>
         (\<forall>b ob. files w p = Some b \<and> libreConvert H b f = Inr ob \<and>
                 writeFails H (outputPathFor p f) = None \<longrightarrow>
            convert H p f w =
              (Inr [outputPathFor p f],
               (made (WriteFile (outputPathFor p f) ob) (made (Convert b f) (made (ReadFile p) w)))
                 \<lparr>files := (files w)(outputPathFor p f \<mapsto> ob)\<rparr>))"
proof -
  note simple = singleExtension_simple [OF single]
  note path = simple_output_path [OF sup single]
  have one: "\<forall>ps. fst (convert H p f w) = Inr ps \<longrightarrow> ps = [outputPathFor p f]"
    unfolding convert_simple [OF simple] convertDocument_run
    by (auto split: option.splits sum.splits)
  have run: "\<forall>b ob. files w p = Some b \<and> libreConvert H b f = Inr ob \<and>
                 writeFails H (outputPathFor p f) = None \<longrightarrow>
            convert H p f w =
              (Inr [outputPathFor p f],
               (made (WriteFile (outputPathFor p f) ob) (made (Convert b f) (made (ReadFile p) w)))
                 \<lparr>files := (files w)(outputPathFor p f \<mapsto> ob)\<rparr>)"
    unfolding convert_simple [OF simple] convertDocument_run
    by auto
  from path one run show ?thesis by blast
qed

theorem simple_conversion_output_witness:
  "isSupportedFile ''/docs/report.docx'' \<and>
   ''.pdf'' \<in> set (getOutputFormats ''/docs/report.docx'') \<and>
   singleExtension ''.pdf'' \<and>
   outputPathFor ''/docs/report.docx'' ''.pdf'' = ''/docs/report.pdf'' \<and>
   stem ''/docs/report.docx'' = ''/docs/report'' \<and>
   extname (outputPathFor ''/docs/report.docx'' ''.pdf'') = ''.pdf'' \<and>
   stem (outputPathFor ''/docs/report.docx'' ''.pdf'') = stem ''/docs/report.docx'' \<and>
   files (desk\<lparr>files := (files desk)(''/docs/report.pdf'' \<mapsto> [0])\<rparr>) ''/docs/report.pdf'' = Some [0] \<and>
   fst (convert office ''/docs/report.docx'' ''.pdf''
         (desk\<lparr>files := (files desk)(''/docs/report.pdf'' \<mapsto> [0])\<rparr>)) = Inr [''/docs/report.pdf''] \<and>
   files (snd (convert office ''/docs/report.docx'' ''.pdf''
         (desk\<lparr>files := (files desk)(''/docs/report.pdf'' \<mapsto> [0])\<rparr>))) ''/docs/report.pdf'' = Some pdfBytes"
proof -
  let ?p = "''/docs/report.docx''"
  let ?w = "desk\<lparr>files := (files desk)(''/docs/report.pdf'' \<mapsto> [0])\<rparr>"
  have ext: "getExtension ?p = ''.docx''"
    by (simp add: getExtension_def extname_def toLowerCase_def toLowerChar_def isSlash_def isDot_def)
  have sup: "isSupportedFile ?p"
    by (simp add: isSupportedFile_iff ext)
  have legal: "''.pdf'' \<in> set (getOutputFormats ?p)"
    by (simp add: getOutputFormats_def ext SUPPORTED_FORMATS_def)
  have simple: "singleExtension ''.pdf''"
    by (simp add: singleExtension_formats)
  have out: "outputPathFor ?p ''.pdf'' = ''/docs/report.pdf''"
    by (simp add: outputPathFor_def isDot_def)
  have st: "stem ?p = ''/docs/report''"
    by (simp add: stem_def extname_def isSlash_def isDot_def)
  have rd: "files ?w ?p = Some docxBytes"
    by (simp add: desk_def)
  have cv: "libreConvert office docxBytes ''.pdf'' = Inr pdfBytes"
    by (simp add: office_def)
  have wr: "writeFails office (outputPathFor ?p ''.pdf'') = None"
    by (simp add: office_def)
  have old: "files ?w ''/docs/report.pdf'' = Some [0]"
    by simp
  note inst = simple_conversion_output [OF sup simple, of office ?w]
  from inst have e: "extname (outputPathFor ?p ''.pdf'') = ''.pdf''"
    and s: "stem (outputPathFor ?p ''.pdf'') = stem ?p"
    by blast+
  from inst rd cv wr
  have run: "convert office ?p ''.pdf'' ?w =
      (Inr [outputPathFor ?p ''.pdf''],
       (made (WriteFile (outputPathFor ?p ''.pdf'') pdfBytes)
          (made (Convert docxBytes ''.pdf'') (made (ReadFile ?p) ?w)))
         \<lparr>files := (files ?w)(outputPathFor ?p ''.pdf'' \<mapsto> pdfBytes)\<rparr>)"
    by blast
  have r1: "fst (convert office ?p ''.pdf'' ?w) = Inr [''/docs/report.pdf'']"
    by (simp add: run out)
  have r2: "files (snd (convert office ?p ''.pdf'' ?w)) ''/docs/report.pdf'' = Some pdfBytes"
    by (simp add: run out)
  from sup legal simple out st e s old r1 r2 show ?thesis
    by (intro conjI)
qed


lemma composite_pdf_doc: "isComposite ''.pdf+.doc''" by (simp add: isComposite_def)
lemma simple_pdf: "\<not> isComposite ''.pdf''" by (simp add: isComposite_def)
lemma simple_docx: "\<not> isComposite ''.docx''" by (simp add: isComposite_def)







lemma formats_nonempty: "(if isComposite spec then elements spec else [spec]) \<noteq> []"
  by (cases spec) (simp_all add: elements_def split: list.splits)




section \<open>The command's handler\<close>

lemma publish_clipboard_fails:
  assumes "execFails H (clipboardCommand ps) = Some e"
  shows "publish H ps w = (Inl e, made (ExecSync (clipboardCommand ps)) w)"
  using assms by (simp add: publish_def copyFilesToClipboard_def execSync_def bindIO_def)

lemma publish_reveal:
  assumes "execFails H (clipboardCommand ps) = None" "ps = first # others"
  shows "publish H ps w =
    (let w3 = made (ShowHUD (hudText (joinWith '', '' (map basename ps))))
               ((made (ExecSync (clipboardCommand ps)) w)
                  \<lparr>shown := map_option (markComplete ps) (shown w)\<rparr>)
     in case openFails H (dirname first) of
          Some e \<Rightarrow> (Inl e, made (OpenPath (dirname first)) w3)
        | None \<Rightarrow> (Inr (), made PopToRoot (made (OpenPath (dirname first)) w3)))"
  using assms
  by (simp add: publish_def copyFilesToClipboard_def execSync_def bindIO_def updateToast_def
      showHUD_def revealFirst_def openPath_def popToRoot_def Let_def shown_made markComplete_def
      split: option.splits)

lemma convertDocument_shown: "shown (snd (convertDocument H p f w)) = shown w"
  unfolding convertDocument_run by (simp add: shown_made split: option.splits sum.splits)

lemma convertLoop_shown: "shown (snd (convertLoop H p fs acc w)) = shown w"
proof (induction fs arbitrary: acc w)
  case Nil
  then show ?case by (simp add: returnIO_def)
next
  case (Cons f fs)
  show ?case
  proof (cases "convertDocument H p f w")
    case (Pair r w1)
    then have "shown w1 = shown w" using convertDocument_shown [of H p f w] by simp
    with Pair Cons.IH show ?thesis
      by (cases r) (simp_all add: convertLoop_Cons del: convertLoop.simps)
  qed
qed

lemma convert_shown: "shown (snd (convert H p spec w)) = shown w"
  by (simp only: convert_as_loop convertLoop_shown)

lemma handleConvert_run:
  assumes "selectedFile st = Some p" "p \<noteq> []" "outputFormat st = spec" "spec \<noteq> []"
  shows "handleConvert H st w =
    (st\<lparr>isConverting := False\<rparr>,
     snd (tryCatch (bindIO (convert H p spec) (publish H)) conversionFailed
           ((made (ShowToast (converting p)) w)\<lparr>shown := Some (converting p)\<rparr>)))"
  using assms by (simp add: handleConvert_def showToast_def Let_def)

lemma handleConvert_convert_fails:
  assumes st: "selectedFile st = Some p" "p \<noteq> []" "outputFormat st = spec" "spec \<noteq> []"
    and run: "convert H p spec ((made (ShowToast (converting p)) w)\<lparr>shown := Some (converting p)\<rparr>) = (Inl e, w1)"
  shows "snd (handleConvert H st w) = w1\<lparr>shown := Some (markFailed e (converting p))\<rparr>"
proof -
  have "shown w1 = Some (converting p)"
    using convert_shown [of H p spec "(made (ShowToast (converting p)) w)\<lparr>shown := Some (converting p)\<rparr>"] run
    by simp
  then show ?thesis
    unfolding handleConvert_run [OF st]
    by (simp add: tryCatch_def bindIO_def run conversionFailed_def updateToast_def markFailed_def)
qed

lemma handleConvert_publish:
  assumes st: "selectedFile st = Some p" "p \<noteq> []" "outputFormat st = spec" "spec \<noteq> []"
    and run: "convert H p spec ((made (ShowToast (converting p)) w)\<lparr>shown := Some (converting p)\<rparr>) = (Inr ps, w1)"
  shows "snd (handleConvert H st w) =
     (case publish H ps w1 of
        (Inl e, w2) \<Rightarrow> w2\<lparr>shown := map_option (markFailed e) (shown w2)\<rparr>
      | (Inr u, w2) \<Rightarrow> w2)"
  unfolding handleConvert_run [OF st]
  by (simp add: tryCatch_def bindIO_def run conversionFailed_def updateToast_def markFailed_def
      split: prod.splits sum.splits)


lemma publish_calls: "\<exists>rest. calls (snd (publish H ps w)) = calls w @ rest"
proof (cases "execFails H (clipboardCommand ps)")
  case (Some e)
  then show ?thesis by (simp add: publish_clipboard_fails calls_made)
next
  case None
  show ?thesis
  proof (cases ps)
    case Nil
    with None show ?thesis
      by (simp add: publish_def copyFilesToClipboard_def execSync_def bindIO_def updateToast_def
          showHUD_def revealFirst_def throwIO_def calls_made made_def)
  next
    case (Cons first others)
    from publish_reveal [OF None Cons] show ?thesis
      by (simp add: calls_made made_def Let_def split: option.splits)
  qed
qed

lemma convert_first_call:
  "\<exists>rest. calls (snd (convert H p spec w)) = calls w @ ReadFile p # rest"
proof -
  obtain f fs where fs: "(if isComposite spec then elements spec else [spec]) = f # fs"
    using formats_nonempty [of spec]
    by (cases "if isComposite spec then elements spec else [spec]") auto
  obtain r1 w1 where step: "convertDocument H p f w = (r1, w1)"
    by (cases "convertDocument H p f w")
  from convertDocument_calls [OF step] obtain rest1
    where c1: "calls w1 = calls w @ ReadFile p # rest1"
    by blast
  show ?thesis
  proof (cases r1)
    case (Inl e)
    with step fs c1 show ?thesis
      by (simp add: convert_as_loop convertLoop_Cons del: convertLoop.simps)
  next
    case (Inr out)
    obtain r2 w2 where rest: "convertLoop H p fs ([] @ [out]) w1 = (r2, w2)"
      by (cases "convertLoop H p fs ([] @ [out]) w1")
    from convertLoop_calls [OF rest] obtain rest2 where "calls w2 = calls w1 @ rest2"
      by blast
    with Inr step fs c1 rest show ?thesis
      by (simp add: convert_as_loop convertLoop_Cons del: convertLoop.simps)
  qed
qed

lemma handleConvert_missing:
  assumes "missing st"
  shows "handleConvert H st w = (st, (made (ShowToast missingSelection) w)\<lparr>shown := Some missingSelection\<rparr>)"
  using assms
  by (cases "selectedFile st") (auto simp: handleConvert_def missing_def showToast_def)

lemma handleConvert_first_calls:
  assumes st: "selectedFile st = Some p" "p \<noteq> []" "outputFormat st \<noteq> []"
  shows "\<exists>rest. calls (snd (handleConvert H st w)) = calls w @ [ShowToast (converting p), ReadFile p] @ rest"
proof -
  define w0 where "w0 = (made (ShowToast (converting p)) w)\<lparr>shown := Some (converting p)\<rparr>"
  have c0: "calls w0 = calls w @ [ShowToast (converting p)]"
    by (simp add: w0_def calls_made)
  obtain r w1 where run: "convert H p (outputFormat st) w0 = (r, w1)"
    by (cases "convert H p (outputFormat st) w0")
  from convert_first_call [of H p "outputFormat st" w0] run obtain rest1
    where c1: "calls w1 = calls w0 @ ReadFile p # rest1"
    by auto
  show ?thesis
  proof (cases r)
    case (Inl e)
    with run have "snd (handleConvert H st w) = w1\<lparr>shown := Some (markFailed e (converting p))\<rparr>"
      using handleConvert_convert_fails [OF st(1,2) refl st(3), of H w e w1] by (simp add: w0_def)
    with c0 c1 show ?thesis by simp
  next
    case (Inr ps)
    with run have fin: "snd (handleConvert H st w) =
       (case publish H ps w1 of
          (Inl e, w2) \<Rightarrow> w2\<lparr>shown := map_option (markFailed e) (shown w2)\<rparr>
        | (Inr u, w2) \<Rightarrow> w2)"
      using handleConvert_publish [OF st(1,2) refl st(3), of H w ps w1] by (simp add: w0_def)
    from publish_calls [of H ps w1] obtain rest2
      where "calls (snd (publish H ps w1)) = calls w1 @ rest2"
      by blast
    then have "calls (snd (handleConvert H st w)) = calls w1 @ rest2"
      unfolding fin by (auto split: prod.splits sum.splits)
    with c0 c1 show ?thesis by simp
  qed
qed

lemma handleFileChange_supported:
  assumes "isSupportedFile p"
  shows "selectedFile (handleFileChange (p # others) st) = Some p \<and>
         outputFormat (handleFileChange (p # others) st) = hd (getOutputFormats p) \<and>
         hd (getOutputFormats p) \<in> set (getOutputFormats p)"
  using assms getOutputFormats_cases [of p]
  by (auto simp: handleFileChange_def selectWithDefault_def)

text \<open>
  Claim C1, as amended. \<^verbatim>\<open>handleConvert\<close> has no check of the extension or of the
  specifier. It rejects a job, with the toast \<^verbatim>\<open>Missing Selection\<close> and without any
  other call, only when the selected file or the format is missing or empty. For every
  other job, whatever its extension and specifier, the first call after the progress
  toast is the read of the input file. Unsupported files are kept out earlier, when a
  file is chosen: \<^verbatim>\<open>handleFileChange\<close> stores a path only if its extension is
  supported, and then preselects the first legal output format; any other path leaves
  the form as it was.
\<close>

theorem handleConvert_guard:
  "(missing st \<longrightarrow>
      handleConvert H st w =
        (st, (made (ShowToast missingSelection) w)\<lparr>shown := Some missingSelection\<rparr>)) \<and>
   (selectedFile st = Some p \<and> p \<noteq> [] \<and> outputFormat st \<noteq> [] \<longrightarrow>
      (\<exists>rest. calls (snd (handleConvert H st w)) =
         calls w @ [ShowToast (converting p), ReadFile p] @ rest)) \<and>
   (isSupportedFile q \<longrightarrow>
      selectedFile (handleFileChange (q # others) st) = Some q \<and>
      outputFormat (handleFileChange (q # others) st) = hd (getOutputFormats q) \<and>
      hd (getOutputFormats q) \<in> set (getOutputFormats q)) \<and>
   (\<not> isSupportedFile q \<longrightarrow> handleFileChange (q # others) st = st)"
  using handleConvert_missing [of st H w] handleConvert_first_calls [of st p H w]
    handleFileChange_supported [of q others st]
  by (simp add: handleFileChange_def)


lemma composite_second_fails:
  assumes comp: "isComposite spec" and els: "elements spec = f1 # f2 # further"
    and rd: "files w p = Some b"
    and c1: "libreConvert H b f1 = Inr b1"
    and wr: "writeFails H (outputPathFor p f1) = None"
    and c2: "libreConvert H (if outputPathFor p f1 = p then b1 else b) f2 = Inl e"
  shows "convert H p spec w =
    (Inl e,
     made (Convert (if outputPathFor p f1 = p then b1 else b) f2) (made (ReadFile p)
       ((made (WriteFile (outputPathFor p f1) b1) (made (Convert b f1) (made (ReadFile p) w)))
          \<lparr>files := (files w)(outputPathFor p f1 \<mapsto> b1)\<rparr>)))"
proof -
  have "convert H p spec w = convertLoop H p (f1 # f2 # further) [] w"
    using comp els by (simp add: convert_as_loop)
  also have "\<dots> = convertLoop H p (f2 # further) [outputPathFor p f1]
      ((made (WriteFile (outputPathFor p f1) b1) (made (Convert b f1) (made (ReadFile p) w)))
          \<lparr>files := (files w)(outputPathFor p f1 \<mapsto> b1)\<rparr>)"
    using rd c1 wr by (simp add: convertLoop_Cons convertDocument_run del: convertLoop.simps)
  also have "\<dots> = (Inl e,
     made (Convert (if outputPathFor p f1 = p then b1 else b) f2) (made (ReadFile p)
       ((made (WriteFile (outputPathFor p f1) b1) (made (Convert b f1) (made (ReadFile p) w)))
          \<lparr>files := (files w)(outputPathFor p f1 \<mapsto> b1)\<rparr>)))"
  proof -
    define b' where "b' = (if outputPathFor p f1 = p then b1 else b)"
    define w1 where "w1 = (made (WriteFile (outputPathFor p f1) b1) (made (Convert b f1) (made (ReadFile p) w)))
          \<lparr>files := (files w)(outputPathFor p f1 \<mapsto> b1)\<rparr>"
    have rd2: "files w1 p = Some b'"
      using rd by (simp add: w1_def b'_def)
    have c2': "libreConvert H b' f2 = Inl e"
      using c2 by (simp only: b'_def)
    have "convertLoop H p (f2 # further) [outputPathFor p f1] w1 =
        (Inl e, made (Convert b' f2) (made (ReadFile p) w1))"
      using rd2 c2' by (simp add: convertLoop_Cons convertDocument_run del: convertLoop.simps)
    then show ?thesis by (simp only: w1_def b'_def)
  qed
  finally show ?thesis .
qed

lemma composite_second_fails_toast:
  assumes comp: "isComposite spec" and els: "elements spec = f1 # f2 # further"
    and rd: "files w p = Some b"
    and c1: "libreConvert H b f1 = Inr b1"
    and wr: "writeFails H (outputPathFor p f1) = None"
    and c2: "libreConvert H (if outputPathFor p f1 = p then b1 else b) f2 = Inl e"
    and st: "selectedFile st = Some p" "p \<noteq> []" "outputFormat st = spec"
  shows "snd (handleConvert H st w) =
     (made (Convert (if outputPathFor p f1 = p then b1 else b) f2) (made (ReadFile p)
       ((made (WriteFile (outputPathFor p f1) b1) (made (Convert b f1) (made (ReadFile p)
          ((made (ShowToast (converting p)) w)\<lparr>shown := Some (converting p)\<rparr>))))
          \<lparr>files := (files w)(outputPathFor p f1 \<mapsto> b1)\<rparr>)))
       \<lparr>shown := Some (markFailed e (converting p))\<rparr>"
proof -
  have ne: "spec \<noteq> []" using comp by (auto simp: isComposite_def)
  let ?w0 = "(made (ShowToast (converting p)) w)\<lparr>shown := Some (converting p)\<rparr>"
  have rd0: "files ?w0 p = Some b" using rd by (simp add: files_made)
  from composite_second_fails [OF comp els rd0 c1 wr c2]
    handleConvert_convert_fails [OF st ne, of H w e]
  show ?thesis by (simp add: files_made)
qed

text \<open>
  Claim C2, as amended. When the converter fails on the second element of a composite
  specifier after the first element was converted and written, the conversion stops
  there: the calls made are the read, conversion and write for the first element and
  the read and failed conversion for the second, and nothing after them. What is
  surfaced is the converter's error alone, as the message of a toast titled
  \<^verbatim>\<open>Conversion Failed\<close>. The file written for the first element stays where it is; its
  path is in neither the error nor the toast.
\<close>

theorem partial_failure_surfaces_error_only:
  assumes comp: "isComposite spec" and els: "elements spec = f1 # f2 # further"
    and rd: "files w p = Some b"
    and c1: "libreConvert H b f1 = Inr b1"
    and wr: "writeFails H (outputPathFor p f1) = None"
    and c2: "libreConvert H (if outputPathFor p f1 = p then b1 else b) f2 = Inl e"
    and st: "selectedFile st = Some p" "p \<noteq> []" "outputFormat st = spec"
  shows "fst (convert H p spec w) = Inl e \<and>
         callsSince w (snd (handleConvert H st w)) =
           [ShowToast (converting p),
            ReadFile p, Convert b f1, WriteFile (outputPathFor p f1) b1,
            ReadFile p, Convert (if outputPathFor p f1 = p then b1 else b) f2] \<and>
         files (snd (handleConvert H st w)) = (files w)(outputPathFor p f1 \<mapsto> b1) \<and>
         shown (snd (handleConvert H st w)) =
           Some \<lparr>style = Failure, title = ''Conversion Failed'', message = errorMessage e,
                 primaryAction = None, secondaryAction = None\<rparr>"
proof -
  have "fst (convert H p spec w) = Inl e"
    by (simp add: composite_second_fails [OF comp els rd c1 wr c2])
  moreover note fin = composite_second_fails_toast [OF comp els rd c1 wr c2 st]
  have "callsSince w (snd (handleConvert H st w)) =
           [ShowToast (converting p),
            ReadFile p, Convert b f1, WriteFile (outputPathFor p f1) b1,
            ReadFile p, Convert (if outputPathFor p f1 = p then b1 else b) f2]"
    unfolding fin by (simp add: callsSince_def made_def)
  moreover have "files (snd (handleConvert H st w)) = (files w)(outputPathFor p f1 \<mapsto> b1)"
    unfolding fin by (simp add: made_def)
  moreover have "shown (snd (handleConvert H st w)) =
           Some \<lparr>style = Failure, title = ''Conversion Failed'', message = errorMessage e,
                 primaryAction = None, secondaryAction = None\<rparr>"
    unfolding fin by (simp add: markFailed_def converting_def)
  ultimately show ?thesis by simp
qed

lemma convert_keeps_toast:
  assumes "convert H p spec w = (r, w1)"
  shows "shown w1 = shown w"
  using convert_shown [of H p spec w] assms by simp

lemma handleConvert_clipboard_fails:
  assumes st: "selectedFile st = Some p" "p \<noteq> []" "outputFormat st = spec" "spec \<noteq> []"
    and run: "convert H p spec (snd (showToast (converting p) w)) = (Inr ps, w1)"
    and clip: "execFails H (clipboardCommand ps) = Some e"
  shows "snd (handleConvert H st w) =
     (made (ExecSync (clipboardCommand ps)) w1)\<lparr>shown := Some (markFailed e (converting p))\<rparr>"
proof -
  from run have run': "convert H p spec ((made (ShowToast (converting p)) w)\<lparr>shown := Some (converting p)\<rparr>) = (Inr ps, w1)"
    by (simp add: showToast_def)
  from convert_keeps_toast [OF run'] have sh: "shown w1 = Some (converting p)" by simp
  show ?thesis
    unfolding handleConvert_publish [OF st run'] publish_clipboard_fails [OF clip]
    by (simp add: shown_made sh)
qed

lemma handleConvert_reveal_fails:
  assumes st: "selectedFile st = Some p" "p \<noteq> []" "outputFormat st = spec" "spec \<noteq> []"
    and run: "convert H p spec (snd (showToast (converting p) w)) = (Inr ps, w1)"
    and clip: "execFails H (clipboardCommand ps) = None"
    and ps: "ps = first # others"
    and reveal: "openFails H (dirname first) = Some e"
  shows "snd (handleConvert H st w) =
     (made (OpenPath (dirname first))
        (made (ShowHUD (hudText (joinWith '', '' (map basename ps))))
           (made (ExecSync (clipboardCommand ps)) w1)))
       \<lparr>shown := Some (markFailed e (markComplete ps (converting p)))\<rparr>"
proof -
  from run have run': "convert H p spec ((made (ShowToast (converting p)) w)\<lparr>shown := Some (converting p)\<rparr>) = (Inr ps, w1)"
    by (simp add: showToast_def)
  from convert_keeps_toast [OF run'] have sh: "shown w1 = Some (converting p)" by simp
  show ?thesis
    unfolding handleConvert_publish [OF st run'] publish_reveal [OF clip ps]
    by (simp add: reveal sh made_def)
qed

lemma handleConvert_all_succeed:
  assumes st: "selectedFile st = Some p" "p \<noteq> []" "outputFormat st = spec" "spec \<noteq> []"
    and run: "convert H p spec (snd (showToast (converting p) w)) = (Inr ps, w1)"
    and clip: "execFails H (clipboardCommand ps) = None"
    and ps: "ps = first # others"
    and reveal: "openFails H (dirname first) = None"
  shows "snd (handleConvert H st w) =
     (made PopToRoot
       (made (OpenPath (dirname first))
         (made (ShowHUD (hudText (joinWith '', '' (map basename ps))))
            (made (ExecSync (clipboardCommand ps)) w1))))
       \<lparr>shown := Some (markComplete ps (converting p))\<rparr>"
proof -
  from run have run': "convert H p spec ((made (ShowToast (converting p)) w)\<lparr>shown := Some (converting p)\<rparr>) = (Inr ps, w1)"
    by (simp add: showToast_def)
  from convert_keeps_toast [OF run'] have sh: "shown w1 = Some (converting p)" by simp
  show ?thesis
    unfolding handleConvert_publish [OF st run'] publish_reveal [OF clip ps]
    by (simp add: reveal sh made_def)
qed

text \<open>
  Claim C3, as amended. After a successful conversion the clipboard copy runs first and
  the reveal runs only if the copy succeeded. When the copy fails, nothing follows it:
  no HUD, no reveal; the toast reports \<^verbatim>\<open>Conversion Failed\<close> with the message of the
  clipboard error, and the converted files stay on disk. When the copy succeeds and the
  reveal fails, the copy has already been made; the toast reports \<^verbatim>\<open>Conversion Failed\<close>
  with the message of the reveal error and keeps its \<^verbatim>\<open>Reveal in Finder\<close> action. When
  both succeed the toast reports success.
\<close>

theorem clipboard_then_reveal:
  assumes st: "selectedFile st = Some p" "p \<noteq> []" "outputFormat st = spec" "spec \<noteq> []"
    and run: "convert H p spec (snd (showToast (converting p) w)) = (Inr ps, w1)"
  shows "(\<forall>e. execFails H (clipboardCommand ps) = Some e \<longrightarrow>
            callsSince w1 (snd (handleConvert H st w)) = [ExecSync (clipboardCommand ps)] \<and>
            files (snd (handleConvert H st w)) = files w1 \<and>
            shown (snd (handleConvert H st w)) = Some (markFailed e (converting p))) \<and>
         (\<forall>e first others.
            execFails H (clipboardCommand ps) = None \<and> ps = first # others \<and>
            openFails H (dirname first) = Some e \<longrightarrow>
            callsSince w1 (snd (handleConvert H st w)) =
              [ExecSync (clipboardCommand ps), ShowHUD (hudText (joinWith '', '' (map basename ps))),
               OpenPath (dirname first)] \<and>
            shown (snd (handleConvert H st w)) = Some (markFailed e (markComplete ps (converting p)))) \<and>
         (\<forall>first others.
            execFails H (clipboardCommand ps) = None \<and> ps = first # others \<and>
            openFails H (dirname first) = None \<longrightarrow>
            callsSince w1 (snd (handleConvert H st w)) =
              [ExecSync (clipboardCommand ps), ShowHUD (hudText (joinWith '', '' (map basename ps))),
               OpenPath (dirname first), PopToRoot] \<and>
            shown (snd (handleConvert H st w)) = Some (markComplete ps (converting p)))"
proof (intro conjI allI impI)
  fix e assume "execFails H (clipboardCommand ps) = Some e"
  note fin = handleConvert_clipboard_fails [OF st run this]
  show "callsSince w1 (snd (handleConvert H st w)) = [ExecSync (clipboardCommand ps)]"
    unfolding fin by (simp add: callsSince_def made_def)
  show "files (snd (handleConvert H st w)) = files w1"
    unfolding fin by (simp add: made_def)
  show "shown (snd (handleConvert H st w)) = Some (markFailed e (converting p))"
    unfolding fin by simp
next
  fix e first others
  assume a: "execFails H (clipboardCommand ps) = None \<and> ps = first # others \<and>
            openFails H (dirname first) = Some e"
  note fin = handleConvert_reveal_fails [OF st run a [THEN conjunct1] a [THEN conjunct2, THEN conjunct1]
      a [THEN conjunct2, THEN conjunct2]]
  show "callsSince w1 (snd (handleConvert H st w)) =
              [ExecSync (clipboardCommand ps), ShowHUD (hudText (joinWith '', '' (map basename ps))),
               OpenPath (dirname first)]"
    unfolding fin by (simp add: callsSince_def made_def)
  show "shown (snd (handleConvert H st w)) = Some (markFailed e (markComplete ps (converting p)))"
    unfolding fin by simp
next
  fix first others
  assume a: "execFails H (clipboardCommand ps) = None \<and> ps = first # others \<and>
            openFails H (dirname first) = None"
  note fin = handleConvert_all_succeed [OF st run a [THEN conjunct1] a [THEN conjunct2, THEN conjunct1]
      a [THEN conjunct2, THEN conjunct2]]
  show "callsSince w1 (snd (handleConvert H st w)) =
              [ExecSync (clipboardCommand ps), ShowHUD (hudText (joinWith '', '' (map basename ps))),
               OpenPath (dirname first), PopToRoot]"
    unfolding fin by (simp add: callsSince_def made_def)
  show "shown (snd (handleConvert H st w)) = Some (markComplete ps (converting p))"
    unfolding fin by simp
qed

section \<open>Runs on the example host\<close>

lemma convert_simple_ok:
  assumes "\<not> isComposite f" "files w p = Some b" "libreConvert H b f = Inr ob"
    "writeFails H (outputPathFor p f) = None"
  shows "convert H p f w =
     (Inr [outputPathFor p f],
      (made (WriteFile (outputPathFor p f) ob) (made (Convert b f) (made (ReadFile p) w)))
        \<lparr>files := (files w)(outputPathFor p f \<mapsto> ob)\<rparr>)"
  using assms by (simp add: convert_simple convertDocument_run)

lemma chosen_fields:
  "selectedFile (chosen p f) = Some p" "outputFormat (chosen p f) = f"
  by (simp_all add: chosen_def)

lemma report_pdf: "outputPathFor ''/docs/report.docx'' ''.pdf'' = ''/docs/report.pdf''"
  by (simp add: outputPathFor_def isDot_def)

lemma memo_pdf: "outputPathFor ''/docs/memo.docx'' ''.pdf'' = ''/docs/memo.pdf''"
  by (simp add: outputPathFor_def isDot_def)

lemma notes_pdf: "outputPathFor ''/docs/notes.txt'' ''.pdf'' = ''/docs/notes.pdf''"
  by (simp add: outputPathFor_def isDot_def)

lemma report_docx: "outputPathFor ''/docs/report.docx'' ''.docx'' = ''/docs/report.docx''"
  by (simp add: outputPathFor_def isDot_def)

lemma notes_extension: "getExtension ''/docs/notes.txt'' = ''.txt''"
  by (simp add: getExtension_def extname_def toLowerCase_def toLowerChar_def isSlash_def isDot_def)

lemma report_extension: "getExtension ''/docs/report.docx'' = ''.docx''"
  by (simp add: getExtension_def extname_def toLowerCase_def toLowerChar_def isSlash_def isDot_def)

lemma notes_unsupported: "\<not> isSupportedFile ''/docs/notes.txt''"
  by (simp add: isSupportedFile_iff notes_extension)

lemma report_supported: "isSupportedFile ''/docs/report.docx''"
  by (simp add: isSupportedFile_iff report_extension)

lemma report_formats: "getOutputFormats ''/docs/report.docx'' = [''.pdf'', ''.doc'', ''.pdf+.doc'']"
  by (simp add: getOutputFormats_def report_extension SUPPORTED_FORMATS_def)

lemma notes_formats: "getOutputFormats ''/docs/notes.txt'' = []"
  using getOutputFormats_cases [of "''/docs/notes.txt''"] notes_unsupported
  by (simp add: isSupportedFile_iff)

text \<open>
  Against claim C1 as stated: a text file, whose extension is not supported, is read,
  converted and written as a PDF; and a Word document with the specifier \<^verbatim>\<open>.docx\<close>,
  which is not legal for it, is read, converted and written over itself.
\<close>

theorem unsupported_job_is_converted:
  "\<not> isSupportedFile ''/docs/notes.txt'' \<and>
   ''.pdf'' \<notin> set (getOutputFormats ''/docs/notes.txt'') \<and>
   fst (convert office ''/docs/notes.txt'' ''.pdf'' desk) = Inr [''/docs/notes.pdf''] \<and>
   callsSince desk (snd (convert office ''/docs/notes.txt'' ''.pdf'' desk)) =
     [ReadFile ''/docs/notes.txt'', Convert [0x68, 0x69] ''.pdf'', WriteFile ''/docs/notes.pdf'' pdfBytes] \<and>
   files (snd (convert office ''/docs/notes.txt'' ''.pdf'' desk)) ''/docs/notes.pdf'' = Some pdfBytes \<and>
   isSupportedFile ''/docs/report.docx'' \<and>
   ''.docx'' \<notin> set (getOutputFormats ''/docs/report.docx'') \<and>
   fst (convert office ''/docs/report.docx'' ''.docx'' desk) = Inr [''/docs/report.docx''] \<and>
   callsSince desk (snd (convert office ''/docs/report.docx'' ''.docx'' desk)) =
     [ReadFile ''/docs/report.docx'', Convert docxBytes ''.docx'', WriteFile ''/docs/report.docx'' docxBytes]"
proof -
  have a: "convert office ''/docs/notes.txt'' ''.pdf'' desk =
     (Inr [''/docs/notes.pdf''],
      (made (WriteFile ''/docs/notes.pdf'' pdfBytes) (made (Convert [0x68, 0x69] ''.pdf'')
         (made (ReadFile ''/docs/notes.txt'') desk)))
        \<lparr>files := (files desk)(''/docs/notes.pdf'' \<mapsto> pdfBytes)\<rparr>)"
    using convert_simple_ok [of "''.pdf''" desk "''/docs/notes.txt''" "[0x68, 0x69]" office pdfBytes]
    by (simp add: simple_pdf notes_pdf desk_def office_def)
  have b: "convert office ''/docs/report.docx'' ''.docx'' desk =
     (Inr [''/docs/report.docx''],
      (made (WriteFile ''/docs/report.docx'' docxBytes) (made (Convert docxBytes ''.docx'')
         (made (ReadFile ''/docs/report.docx'') desk)))
        \<lparr>files := (files desk)(''/docs/report.docx'' \<mapsto> docxBytes)\<rparr>)"
    using convert_simple_ok [of "''.docx''" desk "''/docs/report.docx''" docxBytes office docxBytes]
    by (simp add: simple_docx report_docx desk_def office_def)
  show ?thesis
    unfolding a b
    by (simp add: notes_unsupported notes_formats report_supported report_formats
        callsSince_def made_def)
qed

theorem handleConvert_guard_witness:
  "missing (chosen ''/docs/report.docx'' []) \<and>
   callsSince desk (snd (handleConvert office (chosen ''/docs/report.docx'' []) desk)) =
     [ShowToast missingSelection] \<and>
   files (snd (handleConvert office (chosen ''/docs/report.docx'' []) desk)) = files desk \<and>
   selectedFile (chosen ''/docs/notes.txt'' ''.pdf'') = Some ''/docs/notes.txt'' \<and>
   (\<exists>rest. calls (snd (handleConvert office (chosen ''/docs/notes.txt'' ''.pdf'') desk)) =
      calls desk @ [ShowToast (converting ''/docs/notes.txt''), ReadFile ''/docs/notes.txt''] @ rest) \<and>
   isSupportedFile ''/docs/report.docx'' \<and>
   selectedFile (handleFileChange [''/docs/report.docx''] (chosen ''/docs/notes.txt'' [])) =
     Some ''/docs/report.docx'' \<and>
   outputFormat (handleFileChange [''/docs/report.docx''] (chosen ''/docs/notes.txt'' [])) = ''.pdf'' \<and>
   \<not> isSupportedFile ''/docs/notes.txt'' \<and>
   handleFileChange [''/docs/notes.txt''] (chosen ''/docs/report.docx'' ''.pdf'') =
     chosen ''/docs/report.docx'' ''.pdf''"
proof -
  have m: "missing (chosen ''/docs/report.docx'' [])"
    by (simp add: missing_def chosen_def)
  note g1 = handleConvert_guard [where st = "chosen ''/docs/report.docx'' []" and H = office
      and w = desk and p = "''/docs/report.docx''" and q = "''/docs/report.docx''" and others = "[]"]
  from g1 m have r1: "handleConvert office (chosen ''/docs/report.docx'' []) desk =
      (chosen ''/docs/report.docx'' [],
       (made (ShowToast missingSelection) desk)\<lparr>shown := Some missingSelection\<rparr>)"
    by blast
  have c1: "callsSince desk (snd (handleConvert office (chosen ''/docs/report.docx'' []) desk)) =
     [ShowToast missingSelection]"
    unfolding r1 by (simp add: callsSince_def made_def)
  have f1: "files (snd (handleConvert office (chosen ''/docs/report.docx'' []) desk)) = files desk"
    unfolding r1 by (simp add: made_def)
  note g2 = handleConvert_guard [where st = "chosen ''/docs/notes.txt'' ''.pdf''" and H = office
      and w = desk and p = "''/docs/notes.txt''" and q = "''/docs/report.docx''" and others = "[]"]
  have s2: "selectedFile (chosen ''/docs/notes.txt'' ''.pdf'') = Some ''/docs/notes.txt''"
    by (simp add: chosen_def)
  from g2 s2 have r2: "\<exists>rest. calls (snd (handleConvert office (chosen ''/docs/notes.txt'' ''.pdf'') desk)) =
      calls desk @ [ShowToast (converting ''/docs/notes.txt''), ReadFile ''/docs/notes.txt''] @ rest"
    by (simp add: chosen_def)
  note g3 = handleConvert_guard [where st = "chosen ''/docs/notes.txt'' []" and H = office
      and w = desk and p = "''/docs/notes.txt''" and q = "''/docs/report.docx''" and others = "[]"]
  from g3 report_supported
  have r3: "selectedFile (handleFileChange [''/docs/report.docx''] (chosen ''/docs/notes.txt'' [])) =
     Some ''/docs/report.docx''"
    and r3': "outputFormat (handleFileChange [''/docs/report.docx''] (chosen ''/docs/notes.txt'' [])) = ''.pdf''"
    by (simp_all add: report_formats)
  note g4 = handleConvert_guard [where st = "chosen ''/docs/report.docx'' ''.pdf''" and H = office
      and w = desk and p = "''/docs/notes.txt''" and q = "''/docs/notes.txt''" and others = "[]"]
  from g4 notes_unsupported
  have r4: "handleFileChange [''/docs/notes.txt''] (chosen ''/docs/report.docx'' ''.pdf'') =
     chosen ''/docs/report.docx'' ''.pdf''"
    by blast
  from m c1 f1 s2 r2 report_supported r3 r3' notes_unsupported r4 show ?thesis
    by (intro conjI)
qed

lemma noWordFilter_facts:
  "libreConvert noWordFilter b ''.pdf'' = Inr pdfBytes"
  "libreConvert noWordFilter b ''.doc'' = Inl (JsError ''no export filter'')"
  "writeFails noWordFilter q = None"
  by (simp_all add: noWordFilter_def office_def)

lemma desk_files:
  "files desk ''/docs/report.docx'' = Some docxBytes"
  "files desk ''/docs/memo.docx'' = Some docxBytes"
  by (simp_all add: desk_def)

lemma desk_calls: "calls desk = []"
  by (simp add: desk_def)

text \<open>
  Against claim C2 as stated: with no filter for \<^verbatim>\<open>.doc\<close>, the job \<^verbatim>\<open>.pdf+.doc\<close> writes
  the PDF and then fails. The error and the toast are the same for two different
  documents, although the files already written differ: the failure carries no path.
\<close>

theorem partial_failure_drops_paths:
  "fst (convert noWordFilter ''/docs/report.docx'' ''.pdf+.doc'' desk) = Inl (JsError ''no export filter'') \<and>
   files (snd (handleConvert noWordFilter (chosen ''/docs/report.docx'' ''.pdf+.doc'') desk))
     ''/docs/report.pdf'' = Some pdfBytes \<and>
   shown (snd (handleConvert noWordFilter (chosen ''/docs/report.docx'' ''.pdf+.doc'') desk)) =
     Some \<lparr>style = Failure, title = ''Conversion Failed'', message = ''no export filter'',
           primaryAction = None, secondaryAction = None\<rparr> \<and>
   fst (convert noWordFilter ''/docs/memo.docx'' ''.pdf+.doc'' desk) = Inl (JsError ''no export filter'') \<and>
   files (snd (handleConvert noWordFilter (chosen ''/docs/memo.docx'' ''.pdf+.doc'') desk))
     ''/docs/memo.pdf'' = Some pdfBytes \<and>
   shown (snd (handleConvert noWordFilter (chosen ''/docs/memo.docx'' ''.pdf+.doc'') desk)) =
     Some \<lparr>style = Failure, title = ''Conversion Failed'', message = ''no export filter'',
           primaryAction = None, secondaryAction = None\<rparr>"
proof -
  have c2: "libreConvert noWordFilter (if outputPathFor p ''.pdf'' = p then pdfBytes else docxBytes) ''.doc'' =
      Inl (JsError ''no export filter'')" for p
    by (rule noWordFilter_facts)
  note r = composite_second_fails [OF composite_pdf_doc elements_pdf_doc desk_files(1)
      noWordFilter_facts(1) noWordFilter_facts(3) c2]
  note rt = composite_second_fails_toast [OF composite_pdf_doc elements_pdf_doc desk_files(1)
      noWordFilter_facts(1) noWordFilter_facts(3) c2 chosen_fields(1) _ chosen_fields(2)]
  note m = composite_second_fails [OF composite_pdf_doc elements_pdf_doc desk_files(2)
      noWordFilter_facts(1) noWordFilter_facts(3) c2]
  note mt = composite_second_fails_toast [OF composite_pdf_doc elements_pdf_doc desk_files(2)
      noWordFilter_facts(1) noWordFilter_facts(3) c2 chosen_fields(1) _ chosen_fields(2)]
  show ?thesis
    unfolding r m
    by (simp add: rt mt report_pdf memo_pdf made_def markFailed_def converting_def errorMessage_def)
qed

theorem partial_failure_surfaces_error_only_witness:
  "isComposite ''.pdf+.doc'' \<and>
   elements ''.pdf+.doc'' = [''.pdf'', ''.doc''] \<and>
   files desk ''/docs/report.docx'' = Some docxBytes \<and>
   libreConvert noWordFilter docxBytes ''.pdf'' = Inr pdfBytes \<and>
   writeFails noWordFilter (outputPathFor ''/docs/report.docx'' ''.pdf'') = None \<and>
   libreConvert noWordFilter docxBytes ''.doc'' = Inl (JsError ''no export filter'') \<and>
   fst (convert noWordFilter ''/docs/report.docx'' ''.pdf+.doc'' desk) = Inl (JsError ''no export filter'') \<and>
   callsSince desk (snd (handleConvert noWordFilter (chosen ''/docs/report.docx'' ''.pdf+.doc'') desk)) =
     [ShowToast (converting ''/docs/report.docx''),
      ReadFile ''/docs/report.docx'', Convert docxBytes ''.pdf'', WriteFile ''/docs/report.pdf'' pdfBytes,
      ReadFile ''/docs/report.docx'', Convert docxBytes ''.doc''] \<and>
   files (snd (handleConvert noWordFilter (chosen ''/docs/report.docx'' ''.pdf+.doc'') desk)) =
     (files desk)(''/docs/report.pdf'' \<mapsto> pdfBytes) \<and>
   shown (snd (handleConvert noWordFilter (chosen ''/docs/report.docx'' ''.pdf+.doc'') desk)) =
     Some \<lparr>style = Failure, title = ''Conversion Failed'', message = ''no export filter'',
           primaryAction = None, secondaryAction = None\<rparr>"
proof -
  have c2: "libreConvert noWordFilter
      (if outputPathFor ''/docs/report.docx'' ''.pdf'' = ''/docs/report.docx'' then pdfBytes else docxBytes)
      ''.doc'' = Inl (JsError ''no export filter'')"
    by (rule noWordFilter_facts)
  have ne: "''/docs/report.docx'' \<noteq> []" by simp
  from partial_failure_surfaces_error_only [OF composite_pdf_doc elements_pdf_doc desk_files(1)
      noWordFilter_facts(1) noWordFilter_facts(3) c2 chosen_fields(1) ne chosen_fields(2)]
  show ?thesis
    by (simp add: composite_pdf_doc elements_pdf_doc desk_files noWordFilter_facts report_pdf
        errorMessage_def)
qed

lemma clipboard_hosts:
  "libreConvert noClipboard b ''.pdf'' = Inr pdfBytes" "writeFails noClipboard q = None"
  "execFails noClipboard c = Some (JsError ''osascript: not allowed'')"
  "libreConvert noReveal b ''.pdf'' = Inr pdfBytes" "writeFails noReveal q = None"
  "execFails noReveal c = None" "openFails noReveal d = Some Thrown"
  "libreConvert office b ''.pdf'' = Inr pdfBytes" "writeFails office q = None"
  "execFails office c = None" "openFails office d = None"
  by (simp_all add: noClipboard_def noReveal_def office_def)

lemma started_files: "files (snd (showToast t w)) = files w"
  by (simp add: showToast_def made_def)

lemma report_run:
  assumes "libreConvert H docxBytes ''.pdf'' = Inr pdfBytes" "writeFails H ''/docs/report.pdf'' = None"
  shows "convert H ''/docs/report.docx'' ''.pdf'' (snd (showToast (converting ''/docs/report.docx'') desk)) =
     (Inr [''/docs/report.pdf''],
      (made (WriteFile ''/docs/report.pdf'' pdfBytes) (made (Convert docxBytes ''.pdf'')
         (made (ReadFile ''/docs/report.docx'') (snd (showToast (converting ''/docs/report.docx'') desk)))))
        \<lparr>files := (files desk)(''/docs/report.pdf'' \<mapsto> pdfBytes)\<rparr>)"
  using convert_simple_ok [of "''.pdf''" "snd (showToast (converting ''/docs/report.docx'') desk)"
      "''/docs/report.docx''" docxBytes H pdfBytes] assms
  by (simp add: simple_pdf report_pdf started_files desk_files)

text \<open>
  Against claim C3 as stated: the conversion succeeds and the PDF is on disk, the
  clipboard script fails, and then the directory is never revealed and the toast
  reports a failed conversion.
\<close>

theorem clipboard_failure_stops_publishing:
  "fst (convert noClipboard ''/docs/report.docx'' ''.pdf''
          (snd (showToast (converting ''/docs/report.docx'') desk))) = Inr [''/docs/report.pdf''] \<and>
   callsSince desk (snd (handleConvert noClipboard (chosen ''/docs/report.docx'' ''.pdf'') desk)) =
     [ShowToast (converting ''/docs/report.docx''),
      ReadFile ''/docs/report.docx'', Convert docxBytes ''.pdf'', WriteFile ''/docs/report.pdf'' pdfBytes,
      ExecSync (clipboardCommand [''/docs/report.pdf''])] \<and>
   OpenPath (dirname ''/docs/report.pdf'') \<notin>
     set (calls (snd (handleConvert noClipboard (chosen ''/docs/report.docx'' ''.pdf'') desk))) \<and>
   files (snd (handleConvert noClipboard (chosen ''/docs/report.docx'' ''.pdf'') desk))
     ''/docs/report.pdf'' = Some pdfBytes \<and>
   shown (snd (handleConvert noClipboard (chosen ''/docs/report.docx'' ''.pdf'') desk)) =
     Some \<lparr>style = Failure, title = ''Conversion Failed'', message = ''osascript: not allowed'',
           primaryAction = None, secondaryAction = None\<rparr>"
proof -
  note run = report_run [OF clipboard_hosts(1) clipboard_hosts(2)]
  have ne: "''/docs/report.docx'' \<noteq> []" "''.pdf'' \<noteq> []" by simp_all
  note fin = handleConvert_clipboard_fails [OF chosen_fields(1) ne(1) chosen_fields(2) ne(2) run
      clipboard_hosts(3)]
  show ?thesis
    unfolding fin run
    by (simp add: callsSince_def made_def showToast_def desk_calls markFailed_def converting_def
        errorMessage_def)
qed

theorem clipboard_then_reveal_witness:
  "fst (convert noClipboard ''/docs/report.docx'' ''.pdf''
          (snd (showToast (converting ''/docs/report.docx'') desk))) = Inr [''/docs/report.pdf''] \<and>
   execFails noClipboard (clipboardCommand [''/docs/report.pdf'']) = Some (JsError ''osascript: not allowed'') \<and>
   callsSince (snd (convert noClipboard ''/docs/report.docx'' ''.pdf''
                 (snd (showToast (converting ''/docs/report.docx'') desk))))
      (snd (handleConvert noClipboard (chosen ''/docs/report.docx'' ''.pdf'') desk)) =
     [ExecSync (clipboardCommand [''/docs/report.pdf''])] \<and>
   shown (snd (handleConvert noClipboard (chosen ''/docs/report.docx'' ''.pdf'') desk)) =
     Some (markFailed (JsError ''osascript: not allowed'') (converting ''/docs/report.docx'')) \<and>
   execFails noReveal (clipboardCommand [''/docs/report.pdf'']) = None \<and>
   openFails noReveal (dirname ''/docs/report.pdf'') = Some Thrown \<and>
   callsSince (snd (convert noReveal ''/docs/report.docx'' ''.pdf''
                 (snd (showToast (converting ''/docs/report.docx'') desk))))
      (snd (handleConvert noReveal (chosen ''/docs/report.docx'' ''.pdf'') desk)) =
     [ExecSync (clipboardCommand [''/docs/report.pdf'']), ShowHUD (hudText ''report.pdf''),
      OpenPath ''/docs''] \<and>
   shown (snd (handleConvert noReveal (chosen ''/docs/report.docx'' ''.pdf'') desk)) =
     Some (markFailed Thrown (markComplete [''/docs/report.pdf''] (converting ''/docs/report.docx''))) \<and>
   execFails office (clipboardCommand [''/docs/report.pdf'']) = None \<and>
   openFails office (dirname ''/docs/report.pdf'') = None \<and>
   callsSince (snd (convert office ''/docs/report.docx'' ''.pdf''
                 (snd (showToast (converting ''/docs/report.docx'') desk))))
      (snd (handleConvert office (chosen ''/docs/report.docx'' ''.pdf'') desk)) =
     [ExecSync (clipboardCommand [''/docs/report.pdf'']), ShowHUD (hudText ''report.pdf''),
      OpenPath ''/docs'', PopToRoot] \<and>
   shown (snd (handleConvert office (chosen ''/docs/report.docx'' ''.pdf'') desk)) =
     Some (markComplete [''/docs/report.pdf''] (converting ''/docs/report.docx''))"
proof -
  have ne: "''/docs/report.docx'' \<noteq> []" "''.pdf'' \<noteq> []" by simp_all
  have dir: "dirname ''/docs/report.pdf'' = ''/docs''"
    by (simp add: dirname_def isSlash_def)
  have base: "basename ''/docs/report.pdf'' = ''report.pdf''"
    by (simp add: basename_def isSlash_def)
  note run1 = report_run [OF clipboard_hosts(1) clipboard_hosts(2)]
  note run2 = report_run [OF clipboard_hosts(4) clipboard_hosts(5)]
  note run3 = report_run [OF clipboard_hosts(8) clipboard_hosts(9)]
  note t1 = clipboard_then_reveal [OF chosen_fields(1) ne(1) chosen_fields(2) ne(2) run1]
  note t2 = clipboard_then_reveal [OF chosen_fields(1) ne(1) chosen_fields(2) ne(2) run2]
  note t3 = clipboard_then_reveal [OF chosen_fields(1) ne(1) chosen_fields(2) ne(2) run3]
  have a: "callsSince (snd (convert noClipboard ''/docs/report.docx'' ''.pdf''
                 (snd (showToast (converting ''/docs/report.docx'') desk))))
      (snd (handleConvert noClipboard (chosen ''/docs/report.docx'' ''.pdf'') desk)) =
     [ExecSync (clipboardCommand [''/docs/report.pdf''])] \<and>
   shown (snd (handleConvert noClipboard (chosen ''/docs/report.docx'' ''.pdf'') desk)) =
     Some (markFailed (JsError ''osascript: not allowed'') (converting ''/docs/report.docx''))"
    using t1 [THEN conjunct1, rule_format, OF clipboard_hosts(3)] by (simp add: run1)
  have b: "callsSince (snd (convert noReveal ''/docs/report.docx'' ''.pdf''
                 (snd (showToast (converting ''/docs/report.docx'') desk))))
      (snd (handleConvert noReveal (chosen ''/docs/report.docx'' ''.pdf'') desk)) =
     [ExecSync (clipboardCommand [''/docs/report.pdf'']), ShowHUD (hudText ''report.pdf''),
      OpenPath ''/docs''] \<and>
   shown (snd (handleConvert noReveal (chosen ''/docs/report.docx'' ''.pdf'') desk)) =
     Some (markFailed Thrown (markComplete [''/docs/report.pdf''] (converting ''/docs/report.docx'')))"
    using t2 [THEN conjunct2, THEN conjunct1, rule_format, of "''/docs/report.pdf''" "[]" Thrown]
    by (simp add: run2 clipboard_hosts dir base)
  have c: "callsSince (snd (convert office ''/docs/report.docx'' ''.pdf''
                 (snd (showToast (converting ''/docs/report.docx'') desk))))
      (snd (handleConvert office (chosen ''/docs/report.docx'' ''.pdf'') desk)) =
     [ExecSync (clipboardCommand [''/docs/report.pdf'']), ShowHUD (hudText ''report.pdf''),
      OpenPath ''/docs'', PopToRoot] \<and>
   shown (snd (handleConvert office (chosen ''/docs/report.docx'' ''.pdf'') desk)) =
     Some (markComplete [''/docs/report.pdf''] (converting ''/docs/report.docx''))"
    using t3 [THEN conjunct2, THEN conjunct2, rule_format, of "''/docs/report.pdf''" "[]"]
    by (simp add: run3 clipboard_hosts dir base)
  have r: "fst (convert noClipboard ''/docs/report.docx'' ''.pdf''
          (snd (showToast (converting ''/docs/report.docx'') desk))) = Inr [''/docs/report.pdf'']"
    by (simp add: run1)
  from r a b c show ?thesis
    by (simp add: clipboard_hosts dir)
qed

section \<open>Quoting in the clipboard command\<close>

lemma backslashes_simps:
  "backslashes [] = 0"
  "backslashes (c # cs) = (if c = backslash then 1 else 0) + backslashes cs"
  "backslashes (xs @ ys) = backslashes xs + backslashes ys"
  by (simp_all add: backslashes_def)

lemma quote_not_backslash: "dquote \<noteq> backslash"
  by (simp add: dquote_def backslash_def)

lemma unescape_backslash: "unescape d = Some backslash \<Longrightarrow> d = backslash"
  by (simp add: unescape_def dquote_def backslash_def split: if_splits)

lemma asStrings_backslashes:
  "asStrings st s = Some ls \<Longrightarrow> sum_list (map backslashes ls) \<le> held st + backslashes s"
proof (induction st s arbitrary: ls rule: asStrings.induct)
  case 1
  then show ?case by simp
next
  case (2 lit)
  then show ?case by simp
next
  case (3 c cs)
  show ?case
  proof (cases "c = dquote")
    case True
    with 3 have "sum_list (map backslashes ls) \<le> held (Some []) + backslashes cs" by simp
    then show ?thesis by (simp add: held_def backslashes_simps)
  next
    case False
    with 3 have "sum_list (map backslashes ls) \<le> held None + backslashes cs" by simp
    then show ?thesis by (simp add: held_def backslashes_simps)
  qed
next
  case (4 lit c cs)
  show ?case
  proof (cases "c = dquote")
    case True
    with "4.prems" obtain ls' where ls: "ls = lit # ls'" and r: "asStrings None cs = Some ls'"
      by auto
    from "4.IH"(1) [OF True r] have "sum_list (map backslashes ls') \<le> backslashes cs"
      by (simp add: held_def)
    then show ?thesis by (simp add: ls held_def backslashes_simps)
  next
    case nq: False
    show ?thesis
    proof (cases "c = backslash")
      case True
      with nq "4.prems" obtain d ds u where cs: "cs = d # ds" and u: "unescape d = Some u"
        and r: "asStrings (Some (lit @ [u])) ds = Some ls"
        by (auto split: list.splits option.splits)
      from "4.IH"(2) [OF nq True cs u r]
      have "sum_list (map backslashes ls) \<le> backslashes (lit @ [u]) + backslashes ds"
        by (simp add: held_def)
      then show ?thesis using True by (auto simp: cs held_def backslashes_simps split: if_splits)
    next
      case False
      with nq "4.prems" have r: "asStrings (Some (lit @ [c])) cs = Some ls" by simp
      from "4.IH"(3) [OF nq False r]
      show ?thesis using False by (simp add: held_def backslashes_simps)
    qed
  qed
qed

lemma asStrings_exact:
  "asStrings st s = Some ls \<Longrightarrow> sum_list (map backslashes ls) = held st + backslashes s \<Longrightarrow> clean st \<Longrightarrow>
   \<forall>l\<in>set ls. dquote \<notin> set l"
proof (induction st s arbitrary: ls rule: asStrings.induct)
  case 1
  then show ?case by simp
next
  case (2 lit)
  then show ?case by simp
next
  case (3 c cs)
  show ?case
  proof (cases "c = dquote")
    case True
    with "3.prems" have r: "asStrings (Some []) cs = Some ls" by simp
    from "3.prems"(2) True have "sum_list (map backslashes ls) = held (Some []) + backslashes cs"
      by (simp add: held_def backslashes_simps quote_not_backslash)
    from "3.IH"(1) [OF True r this] show ?thesis by (simp add: clean_def)
  next
    case False
    with "3.prems" have r: "asStrings None cs = Some ls" by simp
    from asStrings_backslashes [OF r] have le: "sum_list (map backslashes ls) \<le> backslashes cs"
      by (simp add: held_def)
    with "3.prems"(2) have "sum_list (map backslashes ls) = held None + backslashes cs"
      by (simp add: held_def backslashes_simps split: if_splits)
    from "3.IH"(2) [OF False r this] show ?thesis by (simp add: clean_def)
  qed
next
  case (4 lit c cs)
  from "4.prems"(3) have lit: "dquote \<notin> set lit" by (simp add: clean_def)
  show ?case
  proof (cases "c = dquote")
    case True
    with "4.prems" obtain ls' where ls: "ls = lit # ls'" and r: "asStrings None cs = Some ls'"
      by auto
    from "4.prems"(2) True have "sum_list (map backslashes ls') = held None + backslashes cs"
      by (simp add: ls held_def backslashes_simps quote_not_backslash)
    from "4.IH"(1) [OF True r this] lit show ?thesis by (simp add: ls clean_def)
  next
    case nq: False
    show ?thesis
    proof (cases "c = backslash")
      case True
      with nq "4.prems" obtain d ds u where cs: "cs = d # ds" and u: "unescape d = Some u"
        and r: "asStrings (Some (lit @ [u])) ds = Some ls"
        by (auto split: list.splits option.splits)
      from asStrings_backslashes [OF r]
      have "sum_list (map backslashes ls) \<le> backslashes lit + (if u = backslash then 1 else 0) + backslashes ds"
        by (simp add: held_def backslashes_simps)
      moreover have "(if u = backslash then 1 else 0) \<le> (if d = backslash then 1 else (0::nat))"
        using unescape_backslash u by auto
      ultimately have "sum_list (map backslashes ls) < held (Some lit) + backslashes (c # cs)"
        using True by (simp add: cs held_def backslashes_simps)
      with "4.prems"(2) show ?thesis by simp
    next
      case False
      with nq "4.prems" have r: "asStrings (Some (lit @ [c])) cs = Some ls" by simp
      from "4.prems"(2) False have "sum_list (map backslashes ls) = held (Some (lit @ [c])) + backslashes cs"
        by (simp add: held_def backslashes_simps)
      moreover have "clean (Some (lit @ [c]))" using lit nq by (simp add: clean_def)
      ultimately show ?thesis using "4.IH"(3) [OF nq False r] by simp
    qed
  qed
qed

lemma backslashes_posixFile: "backslashes (posixFile p) = backslashes p"
  by (simp add: posixFile_def backslashes_def backslash_def dquote_def)

lemma backslashes_pathList:
  "backslashes (joinWith '', '' (map posixFile ps)) = sum_list (map backslashes ps)"
proof (induction ps rule: induct_list012)
  case 1
  then show ?case by (simp add: backslashes_simps)
next
  case (2 p)
  then show ?case by (simp add: backslashes_posixFile)
next
  case (3 p q ps)
  have "backslashes '', '' = 0" by (simp add: backslashes_def backslash_def)
  with 3 show ?case by (simp add: backslashes_simps backslashes_posixFile)
qed

lemma backslashes_script: "backslashes (clipboardScript ps) = sum_list (map backslashes ps)"
proof -
  have "backslashes ''set the clipboard to {'' = 0" "backslashes ''}'' = 0"
    by (simp_all add: backslashes_def backslash_def)
  then show ?thesis
    by (simp add: clipboardScript_def backslashes_simps backslashes_pathList)
qed

lemma literals_without_quotes:
  assumes "asStrings None (clipboardScript ps) = Some ps"
  shows "\<forall>p\<in>set ps. dquote \<notin> set p"
  using asStrings_exact [OF assms] by (simp add: held_def backslashes_script clean_def)

lemma path_in_pathList:
  "p \<in> set ps \<Longrightarrow> set p \<subseteq> set (joinWith '', '' (map posixFile ps))"
proof (induction ps rule: induct_list012)
  case 1
  then show ?case by simp
next
  case (2 q)
  then show ?case by (auto simp: posixFile_def)
next
  case (3 q r ps)
  then show ?case by (auto simp: posixFile_def)
qed

lemma path_in_script: "p \<in> set ps \<Longrightarrow> set p \<subseteq> set (clipboardScript ps)"
  using path_in_pathList [of p ps] by (auto simp: clipboardScript_def)

lemma shellArgument_command:
  "shellArgument (clipboardCommand ps) = shSingleQuoted (squote # clipboardScript ps @ [squote])"
  by (simp add: shellArgument_def clipboardCommand_def)

lemma argument_without_quotes:
  assumes "shellArgument (clipboardCommand ps) = Some (clipboardScript ps, [])"
  shows "\<forall>p\<in>set ps. squote \<notin> set p"
proof -
  from assms have "takeWhile (\<lambda>x. x \<noteq> squote) (clipboardScript ps @ [squote]) = clipboardScript ps"
    by (simp add: shellArgument_command split: if_splits)
  then have "set (clipboardScript ps) \<subseteq> set (takeWhile (\<lambda>x. x \<noteq> squote) (clipboardScript ps @ [squote]))"
    by simp
  then have "squote \<notin> set (clipboardScript ps)"
    using set_takeWhileD by fastforce
  with path_in_script show ?thesis by blast
qed

text \<open>
  Claim C10. The shell command is the fixed text with each path put as it is, with no
  escaping, between double quotes inside the single-quoted script. If the paths are
  correctly delimited in it (the shell passes the whole script, and the script's string
  literals are the paths) then no path contains a single quote or a double quote.
\<close>

theorem clipboard_command_quoting:
  "clipboardCommand ps =
     ''osascript -e '' @ [squote] @ ''set the clipboard to {'' @
       joinWith '', '' (map (\<lambda>p. ''POSIX file '' @ [dquote] @ p @ [dquote]) ps) @ ''}'' @ [squote] \<and>
   (wellDelimited ps \<longrightarrow> (\<forall>p\<in>set ps. squote \<notin> set p \<and> dquote \<notin> set p))"
proof -
  have "posixFile = (\<lambda>p. ''POSIX file '' @ [dquote] @ p @ [dquote])"
    by (rule ext) (simp add: posixFile_def)
  then have "clipboardCommand ps =
     ''osascript -e '' @ [squote] @ ''set the clipboard to {'' @
       joinWith '', '' (map (\<lambda>p. ''POSIX file '' @ [dquote] @ p @ [dquote]) ps) @ ''}'' @ [squote]"
    by (simp add: clipboardCommand_def clipboardScript_def)
  moreover have "\<forall>p\<in>set ps. squote \<notin> set p \<and> dquote \<notin> set p" if "wellDelimited ps"
    using that argument_without_quotes [of ps] literals_without_quotes [of ps]
    by (simp add: wellDelimited_def)
  ultimately show ?thesis by blast
qed


text \<open>Two ordinary paths are correctly delimited; a path with either quote is not.\<close>

lemma report_delimited: "wellDelimited [''/docs/report.pdf'', ''/docs/report.doc'']"
  by (simp add: wellDelimited_def shellArgument_def clipboardCommand_def clipboardScript_def
      posixFile_def squote_def dquote_def backslash_def)

lemma quoted_not_delimited:
  "\<not> wellDelimited [''/docs/it'' @ [squote] @ ''s.pdf'']"
  "\<not> wellDelimited [''/docs/a'' @ [dquote] @ ''b.pdf'']"
  by (simp_all add: wellDelimited_def shellArgument_def clipboardCommand_def clipboardScript_def
      posixFile_def squote_def dquote_def backslash_def)

theorem clipboard_command_quoting_witness:
  "wellDelimited [''/docs/report.pdf'', ''/docs/report.doc''] \<and>
   squote \<notin> set ''/docs/report.pdf'' \<and> dquote \<notin> set ''/docs/report.pdf'' \<and>
   squote \<notin> set ''/docs/report.doc'' \<and> dquote \<notin> set ''/docs/report.doc'' \<and>
   clipboardCommand [''/docs/report.pdf'', ''/docs/report.doc''] =
     ''osascript -e '' @ [squote] @ ''set the clipboard to {POSIX file '' @ [dquote] @
       ''/docs/report.pdf'' @ [dquote] @ '', POSIX file '' @ [dquote] @ ''/docs/report.doc'' @
       [dquote] @ ''}'' @ [squote]"
proof -
  from clipboard_command_quoting [of "[''/docs/report.pdf'', ''/docs/report.doc'']"] report_delimited
  show ?thesis by simp
qed

end
